theory Spec2Isabelle
  imports Complex_Main
begin

section \<open>The dense matrix container\<close>

text \<open>
  \<^verbatim>\<open>blissart::linalg::Matrix\<close> is used by \<^verbatim>\<open>Deconvolver.cpp\<close> but its source is not
  part of the files verified here.  A matrix is a row count, a column count and the
  entries; entries are IEEE doubles in the program and real numbers here, so rounding
  is not modelled.  Entries outside the dimensions are never read by a well-dimensioned
  engine (out-of-range access is undefined behaviour in the program).
\<close>

record matrix =
  rows :: nat
  cols :: nat
  atM :: "nat \<Rightarrow> nat \<Rightarrow> real"

type_synonym GeneratorFunction = "nat \<Rightarrow> nat \<Rightarrow> real"

text \<open>Modelled from the spec: \<^verbatim>\<open>generators::zero\<close>, the generator that yields 0 everywhere.\<close>
definition zero_gen :: GeneratorFunction where
  "zero_gen i j = 0"

text \<open>Modelled from the spec: the constructor \<^verbatim>\<open>Matrix(rows, cols, generator)\<close>, which fills
  entry (i, j) with \<^verbatim>\<open>generator(i, j)\<close>.\<close>
definition Matrix_gen :: "nat \<Rightarrow> nat \<Rightarrow> GeneratorFunction \<Rightarrow> matrix" where
  "Matrix_gen r c g = \<lparr>rows = r, cols = c, atM = (\<lambda>i j. if i < r \<and> j < c then g i j else undefined)\<rparr>"

text \<open>Modelled from the spec: the constructor \<^verbatim>\<open>Matrix(rows, cols)\<close>, which allocates
  storage without initialising it.\<close>
definition Matrix_new :: "nat \<Rightarrow> nat \<Rightarrow> matrix" where
  "Matrix_new r c = \<lparr>rows = r, cols = c, atM = undefined\<rparr>"

text \<open>Elementwise write access \<^verbatim>\<open>m(i, j) = x\<close>.\<close>
definition setAt :: "matrix \<Rightarrow> nat \<Rightarrow> nat \<Rightarrow> real \<Rightarrow> matrix" where
  "setAt m i j x = m\<lparr>atM := (atM m)(i := (atM m i)(j := x))\<rparr>"

text \<open>A counting loop \<^verbatim>\<open>for (unsigned int i = 0; i < n; ++i) body(i)\<close>.\<close>
definition forUpTo :: "nat \<Rightarrow> (nat \<Rightarrow> 'a \<Rightarrow> 'a) \<Rightarrow> 'a \<Rightarrow> 'a" where
  "forUpTo n body x = fold body [0..<n] x"

text \<open>Modelled from the spec: \<^verbatim>\<open>zero()\<close>, zero-fill.\<close>
definition zeroM :: "matrix \<Rightarrow> matrix" where
  "zeroM m = m\<lparr>atM := (\<lambda>i j. if i < rows m \<and> j < cols m then 0 else atM m i j)\<rparr>"

text \<open>Modelled from the spec: \<^verbatim>\<open>add(other)\<close> and \<^verbatim>\<open>sub(other)\<close>, elementwise in place.\<close>
definition addM :: "matrix \<Rightarrow> matrix \<Rightarrow> matrix" where
  "addM m other = m\<lparr>atM := (\<lambda>i j. if i < rows m \<and> j < cols m then atM m i j + atM other i j else atM m i j)\<rparr>"

definition subM :: "matrix \<Rightarrow> matrix \<Rightarrow> matrix" where
  "subM m other = m\<lparr>atM := (\<lambda>i j. if i < rows m \<and> j < cols m then atM m i j - atM other i j else atM m i j)\<rparr>"

text \<open>Modelled from the spec: row and column sums, dot products of two rows and of two
  columns, and the Frobenius norm (the square root of the sum of the squared entries).\<close>
definition rowSum :: "matrix \<Rightarrow> nat \<Rightarrow> real" where
  "rowSum m i = (\<Sum>j<cols m. atM m i j)"

definition colSum :: "matrix \<Rightarrow> nat \<Rightarrow> real" where
  "colSum m j = (\<Sum>i<rows m. atM m i j)"

definition dotRowRow :: "matrix \<Rightarrow> nat \<Rightarrow> matrix \<Rightarrow> nat \<Rightarrow> real" where
  "dotRowRow a i b k = (\<Sum>j<cols a. atM a i j * atM b k j)"

definition dotColCol :: "matrix \<Rightarrow> nat \<Rightarrow> matrix \<Rightarrow> nat \<Rightarrow> real" where
  "dotColCol a j b k = (\<Sum>i<rows a. atM a i j * atM b i k)"

definition frobeniusNorm :: "matrix \<Rightarrow> real" where
  "frobeniusNorm m = sqrt (\<Sum>i<rows m. \<Sum>j<cols m. (atM m i j)\<^sup>2)"

text \<open>Modelled from the spec: \<^verbatim>\<open>shiftColumnsRight()\<close>, which moves every column one place
  to the right and fills the first column with zeros.\<close>
definition shiftColumnsRight :: "matrix \<Rightarrow> matrix" where
  "shiftColumnsRight m = m\<lparr>atM := (\<lambda>i j. if i < rows m \<and> j < cols m
       then (if j = 0 then 0 else atM m i (j - 1)) else atM m i j)\<rparr>"

text \<open>
  Modelled from the spec: the general matrix product
  \<^verbatim>\<open>multWithMatrix(other, target, transpose, transposeOther, m, k, n, rowOffset, colOffset,
  rowOffsetOther, colOffsetOther, rowOffsetTarget, colOffsetTarget)\<close>.
  It multiplies an m-by-k block of (possibly transposed) \<^verbatim>\<open>this\<close> with a k-by-n block of
  (possibly transposed) \<^verbatim>\<open>other\<close>; the offsets locate the blocks in the stored matrices.
  The m-by-n result is written into \<^verbatim>\<open>target\<close> at the target offsets; the other entries
  of \<^verbatim>\<open>target\<close> keep their values.
\<close>
definition multWithMatrixSub ::
  "matrix \<Rightarrow> matrix \<Rightarrow> matrix \<Rightarrow> bool \<Rightarrow> bool \<Rightarrow> nat \<Rightarrow> nat \<Rightarrow> nat \<Rightarrow>
   nat \<Rightarrow> nat \<Rightarrow> nat \<Rightarrow> nat \<Rightarrow> nat \<Rightarrow> nat \<Rightarrow> matrix" where
  "multWithMatrixSub this other target transposeThis transposeOther m k n
       rowOffset colOffset rowOffsetOther colOffsetOther rowOffsetTarget colOffsetTarget =
     target\<lparr>atM := (\<lambda>i j.
       if rowOffsetTarget \<le> i \<and> i < rowOffsetTarget + m \<and> colOffsetTarget \<le> j \<and> j < colOffsetTarget + n
       then (\<Sum>l<k.
              (if transposeThis then atM this (rowOffset + l) (colOffset + (i - rowOffsetTarget))
               else atM this (rowOffset + (i - rowOffsetTarget)) (colOffset + l)) *
              (if transposeOther then atM other (rowOffsetOther + (j - colOffsetTarget)) (colOffsetOther + l)
               else atM other (rowOffsetOther + l) (colOffsetOther + (j - colOffsetTarget))))
       else atM target i j)\<rparr>"

text \<open>Modelled from the spec: \<^verbatim>\<open>multWithMatrix(other, target)\<close>, the full product
  \<^verbatim>\<open>this * other\<close>, and \<^verbatim>\<open>multWithTransposedMatrix(other, target)\<close>, the full product
  of \<^verbatim>\<open>this\<close> with the transpose of \<^verbatim>\<open>other\<close>.\<close>
definition multWithMatrix :: "matrix \<Rightarrow> matrix \<Rightarrow> matrix \<Rightarrow> matrix" where
  "multWithMatrix this other target =
     multWithMatrixSub this other target False False (rows this) (cols this) (cols other) 0 0 0 0 0 0"

definition multWithTransposedMatrix :: "matrix \<Rightarrow> matrix \<Rightarrow> matrix \<Rightarrow> matrix" where
  "multWithTransposedMatrix this other target =
     multWithMatrixSub this other target False True (rows this) (cols this) (rows other) 0 0 0 0 0 0"

text \<open>The constant guarding divisions in the multiplicative updates
  (\<^verbatim>\<open>#define DIVISOR_FLOOR 1e-9\<close>).\<close>
definition DIVISOR_FLOOR :: real where
  "DIVISOR_FLOOR = 1 / 10 ^ 9"

text \<open>Modelled from the spec: \<^verbatim>\<open>elementWiseDivision(other, target)\<close>; the spec's
  elementwise division of the KL drivers replaces a non-positive divisor by the floor.\<close>
definition elementWiseDivision :: "matrix \<Rightarrow> matrix \<Rightarrow> matrix \<Rightarrow> matrix" where
  "elementWiseDivision this other target =
     target\<lparr>atM := (\<lambda>i j. if i < rows this \<and> j < cols this
        then atM this i j / (if atM other i j \<le> 0 then DIVISOR_FLOOR else atM other i j)
        else atM target i j)\<rparr>"

section \<open>The engine state\<close>

text \<open>The exceptions of the program: every failure is a \<^verbatim>\<open>std::runtime_error\<close> carrying a
  message.\<close>
datatype error = runtime_error string

text \<open>The enumeration \<^verbatim>\<open>Deconvolver::NMFCostFunction\<close>.  A C++ enumeration variable can
  hold a value that is none of the enumerators; \<open>OtherCostFunction\<close> stands for those.\<close>
datatype NMFCostFunction =
    EuclideanDistance
  | KLDivergence
  | EuclideanDistanceSparse
  | KLDivergenceSparse
  | EuclideanDistanceSparseNormalized
  | KLDivergenceContinuous
  | OtherCostFunction nat

text \<open>
  The data members of \<^verbatim>\<open>class Deconvolver\<close>.  The member \<^verbatim>\<open>_x\<close> of the program is the
  field \<open>m_x\<close> here.  \<^verbatim>\<open>_oldApprox\<close> is a pointer that is null or owns a matrix;
  \<^verbatim>\<open>_w\<close> is an array of \<^verbatim>\<open>_t\<close> matrices; \<^verbatim>\<open>_wColConstant\<close> is an array of booleans.
  The counters are \<^verbatim>\<open>unsigned int\<close> in the program; \<^verbatim>\<open>_numSteps\<close> is only incremented
  under the loop guard \<^verbatim>\<open>_numSteps < maxSteps\<close>, so it cannot wrap around.
\<close>
record deconvolver =
  m_v :: matrix
  m_approx :: matrix
  m_oldApprox :: "matrix option"
  m_w :: "matrix list"
  m_wConstant :: bool
  m_wColConstant :: "bool list"
  m_normalizeMatrices :: bool
  m_t :: nat
  m_h :: matrix
  m_s :: matrix
  m_c :: matrix
  m_numSteps :: nat
  m_absoluteError :: real
  m_relativeError :: real
  m_vFrob :: real
  m_notificationDelay :: nat

text \<open>
  A \<^verbatim>\<open>ProgressObserver\<close> is an object of the caller; the engine only calls its method
  \<^verbatim>\<open>progressChanged(fraction)\<close>.  The observer is modelled by the list of fractions it
  has received, oldest first, and a pointer to an observer by an option (\<open>None\<close> is the
  null pointer).
\<close>
type_synonym ProgressObserver = "real list"

definition progressChanged :: "real \<Rightarrow> ProgressObserver \<Rightarrow> ProgressObserver" where
  "progressChanged fraction observer = observer @ [fraction]"

text \<open>Decimal output of an unsigned number, as \<^verbatim>\<open>operator<<\<close> of a string stream prints it.\<close>
fun decimal :: "nat \<Rightarrow> string" where
  "decimal n = (if n < 10 then [char_of (48 + n)] else decimal (n div 10) @ [char_of (48 + n mod 10)])"

declare decimal.simps [simp del]

definition generateW :: "GeneratorFunction \<Rightarrow> deconvolver \<Rightarrow> deconvolver" where
  "generateW generator st =
     (let w = forUpTo (m_t st) (\<lambda>l w.
                forUpTo (rows (w ! l)) (\<lambda>i w.
                  forUpTo (cols (w ! l)) (\<lambda>j w.
                    w[l := setAt (w ! l) i j (generator i j)]) w) w) (m_w st)
      in st\<lparr>m_w := w\<rparr>)"

definition generateH :: "GeneratorFunction \<Rightarrow> deconvolver \<Rightarrow> deconvolver" where
  "generateH generator st =
     (let h = forUpTo (rows (m_h st)) (\<lambda>i h.
                forUpTo (cols h) (\<lambda>j h. setAt h i j (generator i j)) h) (m_h st)
      in st\<lparr>m_h := h\<rparr>)"

text \<open>
  The constructor.  The member initialisers run first; the check of \<^verbatim>\<open>t\<close> against the
  number of columns of \<^verbatim>\<open>v\<close> follows and throws; then the matrices of \<^verbatim>\<open>_w\<close> are
  allocated, the column flags are cleared and \<^verbatim>\<open>_w\<close> is filled by the generator.
\<close>
definition Deconvolver ::
  "matrix \<Rightarrow> nat \<Rightarrow> nat \<Rightarrow> GeneratorFunction \<Rightarrow> GeneratorFunction \<Rightarrow> error + deconvolver" where
  "Deconvolver v r t wGenerator hGenerator =
    (let st = \<lparr> m_v = v,
                m_approx = Matrix_gen (rows v) (cols v) zero_gen,
                m_oldApprox = None,
                m_w = replicate t undefined,
                m_wConstant = False,
                m_wColConstant = replicate r undefined,
                m_normalizeMatrices = False,
                m_t = t,
                m_h = Matrix_gen r (cols v) hGenerator,
                m_s = Matrix_gen r (cols v) zero_gen,
                m_c = Matrix_gen r (cols v) zero_gen,
                m_numSteps = 0,
                m_absoluteError = - 1,
                m_relativeError = - 1,
                m_vFrob = frobeniusNorm v,
                m_notificationDelay = 25 \<rparr>
     in if t > cols v
        then Inl (runtime_error (''Invalid number of spectra: '' @ decimal t @
                                 '': Matrix has only '' @ decimal (cols v) @ '' columns!''))
        else
          (let st = st\<lparr>m_w := forUpTo (m_t st) (\<lambda>l w. w[l := Matrix_new (rows v) r]) (m_w st)\<rparr>;
               st = st\<lparr>m_wColConstant :=
                        forUpTo r (\<lambda>c wColConstant. wColConstant[c := False]) (m_wColConstant st)\<rparr>
           in Inr (generateW wGenerator st)))"


section \<open>IEEE arithmetic\<close>

text \<open>
  The entries of the matrices are real numbers here, and the arithmetic on them is exact.
  Two results of the program are decided by a rounded quotient, and there the rounding
  is modelled: the quotient of the convergence test, a \<^verbatim>\<open>double\<close>, and the fraction passed
  to the observer, a \<^verbatim>\<open>float\<close>.  Rounding is to the nearest representable number, ties
  to the one with an even significand (the default mode).

  \<open>roundHalfEven\<close> rounds a real number to an integer.  \<open>ulp p emin x\<close> is the unit in
  the last place of a format with \<open>p\<close> significant bits and least exponent \<open>emin\<close> at
  \<open>x\<close>: below \<open>2 ^ emin\<close> the numbers are subnormal and the unit no longer shrinks.
  \<open>roundToNearest\<close> is the rounding with an unbounded exponent; a result whose magnitude
  reaches \<open>2 ^ 128\<close> (\<^verbatim>\<open>float\<close>) or \<open>2 ^ 1024\<close> (\<^verbatim>\<open>double\<close>) is an infinity in the program.
\<close>

definition roundHalfEven :: "real \<Rightarrow> int" where
  "roundHalfEven x =
     (let f = \<lfloor>x\<rfloor>
      in if x - of_int f < 1 / 2 then f
         else if 1 / 2 < x - of_int f then f + 1
         else if even f then f else f + 1)"

definition ulp :: "nat \<Rightarrow> int \<Rightarrow> real \<Rightarrow> real" where
  "ulp p emin x = 2 powr of_int (max \<lfloor>log 2 \<bar>x\<bar>\<rfloor> emin - int p + 1)"

definition roundToNearest :: "nat \<Rightarrow> int \<Rightarrow> real \<Rightarrow> real" where
  "roundToNearest p emin x =
     (if x = 0 then 0
      else ulp p emin x * of_int (roundHalfEven (x / ulp p emin x)))"

text \<open>The formats \<^verbatim>\<open>float\<close> (24 significant bits, least exponent -126) and \<^verbatim>\<open>double\<close>
  (53 significant bits, least exponent -1022).\<close>
definition toFloat :: "real \<Rightarrow> real" where
  "toFloat x = roundToNearest 24 (- 126) x"

definition toDouble :: "real \<Rightarrow> real" where
  "toDouble x = roundToNearest 53 (- 1022) x"

text \<open>
  The exact quotient of two numbers where the IEEE quotient is a number.  For a divisor 0
  the IEEE quotient is an infinity or not a number; no real number stands for it, and the
  value is left unspecified.
\<close>
definition ieeeQuotient :: "real \<Rightarrow> real \<Rightarrow> real" where
  "ieeeQuotient x y = (if y = 0 then undefined else x / y)"

text \<open>The fraction \<^verbatim>\<open>(float)_numSteps / (float)maxSteps\<close>: both counters are converted to
  \<^verbatim>\<open>float\<close>, and the quotient of the two, evaluated in \<^verbatim>\<open>float\<close>, is rounded again.  The
  counters are \<^verbatim>\<open>unsigned int\<close>, below \<open>2 ^ 32\<close>, so neither a conversion nor the quotient
  overflows.\<close>
definition floatFraction :: "nat \<Rightarrow> nat \<Rightarrow> real" where
  "floatFraction numSteps maxSteps =
     toFloat (ieeeQuotient (toFloat (real numSteps)) (toFloat (real maxSteps)))"

section \<open>The shifted-convolution kernel and the convergence monitor\<close>

text \<open>Subtraction and decrement of \<^verbatim>\<open>unsigned int\<close> values (32 bits): the result wraps
  around when the subtrahend is the larger one.\<close>
definition usub :: "nat \<Rightarrow> nat \<Rightarrow> nat" where
  "usub a b = (if b \<le> a then a - b else a + 2 ^ 32 - b)"

text \<open>\<^verbatim>\<open>computeWpH(p, wpH)\<close>: the first \<open>p\<close> columns of \<open>wpH\<close> are filled with zeros, then
  the product of \<^verbatim>\<open>_w[p]\<close> with the first \<^verbatim>\<open>_h.cols() - p\<close> columns of \<^verbatim>\<open>_h\<close> is stored
  beginning at column \<open>p\<close>.\<close>
definition computeWpH :: "deconvolver \<Rightarrow> nat \<Rightarrow> matrix \<Rightarrow> matrix" where
  "computeWpH st p wpH =
     (let wpH = forUpTo p (\<lambda>j wpH. forUpTo (rows wpH) (\<lambda>i wpH. setAt wpH i j 0) wpH) wpH
      in multWithMatrixSub (m_w st ! p) (m_h st) wpH False False
           (rows (m_w st ! p)) (cols (m_w st ! p)) (usub (cols (m_h st)) p)
           0 0 0 0 0 p)"

definition computeApprox :: "deconvolver \<Rightarrow> deconvolver" where
  "computeApprox st =
     (if m_t st = 1
      then st\<lparr>m_approx := multWithMatrix (m_w st ! 0) (m_h st) (m_approx st)\<rparr>
      else
        (let wpH = Matrix_new (rows (m_v st)) (cols (m_v st));
             approx = zeroM (m_approx st);
             (wpH, approx) = forUpTo (m_t st) (\<lambda>p (wpH, approx).
                   (let wpH = computeWpH st p wpH
                    in (wpH, addM approx wpH))) (wpH, approx)
         in st\<lparr>m_approx := approx\<rparr>))"

text \<open>
  The test \<^verbatim>\<open>zeta < eps\<close> for \<^verbatim>\<open>double zeta = x / y\<close>, where \<open>x\<close> and \<open>y\<close> are the two
  norms, which are not negative.  For \<^verbatim>\<open>y == 0\<close> the quotient is an infinity or not a
  number, and the comparison is false.  Otherwise \<^verbatim>\<open>zeta\<close> is the quotient rounded to
  \<^verbatim>\<open>double\<close>; if it overflows it is an infinity, and the comparison is false again.
\<close>
definition quotientBelow :: "real \<Rightarrow> real \<Rightarrow> real \<Rightarrow> bool" where
  "quotientBelow x y eps =
     (y \<noteq> 0 \<and> (let zeta = toDouble (x / y) in zeta < 2 ^ 1024 \<and> zeta < eps))"

definition checkConvergence :: "real \<Rightarrow> bool \<Rightarrow> deconvolver \<Rightarrow> bool \<times> deconvolver" where
  "checkConvergence eps doComputeApprox st =
     (if eps \<le> 0 then (False, st)
      else
        (case m_oldApprox st of
           None \<Rightarrow>
             (let st = (if doComputeApprox then computeApprox st else st);
                  st = st\<lparr>m_oldApprox := Some (m_approx st)\<rparr>
              in (False, st))
         | Some oldApprox \<Rightarrow>
             (let st = (if doComputeApprox then computeApprox st else st);
                  approxDiff = m_approx st;
                  approxDiff = subM approxDiff oldApprox;
                  converged = quotientBelow (frobeniusNorm approxDiff) (frobeniusNorm oldApprox) eps;
                  st = st\<lparr>m_oldApprox := Some (m_approx st)\<rparr>
              in (converged, st))))"

definition computeError :: "deconvolver \<Rightarrow> deconvolver" where
  "computeError st =
     (let errorMatrix = m_approx st;
          errorMatrix = subM errorMatrix (m_v st);
          st = st\<lparr>m_absoluteError := frobeniusNorm errorMatrix\<rparr>
      in st\<lparr>m_relativeError := m_absoluteError st / m_vFrob st\<rparr>)"

text \<open>Modelled from the spec: the default value of the parameter \<^verbatim>\<open>epsilon\<close> of
  \<^verbatim>\<open>ensureNonnegativity\<close>, declared in the header, a machine-small positive number.\<close>
definition defaultEpsilon :: real where
  "defaultEpsilon = 1 / 2 ^ 52"

definition ensureNonnegativity :: "matrix \<Rightarrow> real \<Rightarrow> matrix" where
  "ensureNonnegativity m epsilon =
     forUpTo (cols m) (\<lambda>j m.
       forUpTo (rows m) (\<lambda>i m.
         if atM m i j \<le> 0 then setAt m i j epsilon else m) m) m"

text \<open>A counting loop \<^verbatim>\<open>for (unsigned int p = a; p < b; ++p) body(p)\<close>.\<close>
definition forFromTo :: "nat \<Rightarrow> nat \<Rightarrow> (nat \<Rightarrow> 'a \<Rightarrow> 'a) \<Rightarrow> 'a \<Rightarrow> 'a" where
  "forFromTo a b body x = fold body [a..<b] x"

text \<open>\<^verbatim>\<open>normalizeMatrices()\<close>.  The vector \<^verbatim>\<open>hNormRight\<close> has \<^verbatim>\<open>_t\<close> entries, all 0 at
  first; the loop over \<open>p\<close> from 1 carries the column index \<^verbatim>\<open>col\<close>, decremented after
  each round.\<close>
definition normalizeMatrices :: "deconvolver \<Rightarrow> deconvolver" where
  "normalizeMatrices st =
     (let hNorm = frobeniusNorm (m_h st);
          h = forUpTo (cols (m_h st)) (\<lambda>j h.
                 forUpTo (rows h) (\<lambda>i h. setAt h i j (atM h i j / hNorm)) h) (m_h st);
          st = st\<lparr>m_h := h\<rparr>;
          hNormRight = replicate (m_t st) (0::real);
          col = usub (cols (m_h st)) 1;
          (hNormRight, col) = forFromTo 1 (m_t st) (\<lambda>p (hNormRight, col).
                 (let hNormRight = (if p > 1 then hNormRight[p - 1 := hNormRight ! (p - 2)]
                                    else hNormRight);
                      hNormRight = hNormRight[p - 1 := hNormRight ! (p - 1)
                                                       + dotColCol (m_h st) col (m_h st) col]
                  in (hNormRight, usub col 1))) (hNormRight, col);
          w = forUpTo (m_t st) (\<lambda>p w.
                forUpTo (cols (w ! p)) (\<lambda>j w.
                  forUpTo (rows (w ! p)) (\<lambda>i w.
                    w[p := setAt (w ! p) i j (atM (w ! p) i j * (hNorm - hNormRight ! p))]) w) w) (m_w st)
      in st\<lparr>m_w := w\<rparr>)"

text \<open>
  \<^verbatim>\<open>nextItStep(observer, maxSteps)\<close>.  The observer is consulted only if the pointer is not
  null.  The remainder \<^verbatim>\<open>_numSteps % _notificationDelay\<close> is undefined in the program for
  a delay of 0; the statements below about notifications assume a positive delay.  The
  function is called only while \<^verbatim>\<open>_numSteps < maxSteps\<close>, so \<^verbatim>\<open>maxSteps\<close> is not 0.
\<close>
definition nextItStep ::
  "ProgressObserver option \<Rightarrow> nat \<Rightarrow> deconvolver \<Rightarrow> deconvolver \<times> ProgressObserver option" where
  "nextItStep observer maxSteps st =
     (let st = st\<lparr>m_numSteps := m_numSteps st + 1\<rparr>
      in case observer of
           None \<Rightarrow> (st, None)
         | Some ob \<Rightarrow>
             if m_numSteps st mod m_notificationDelay st = 0
             then (st, Some (progressChanged (floatFraction (m_numSteps st) maxSteps) ob))
             else (st, Some ob))"


section \<open>The update drivers\<close>

text \<open>
  Each driver allocates its scratch matrices once, before its loop.  Every entry of a
  scratch matrix that an iteration reads has been written earlier in the same iteration,
  so the model allocates the scratch matrices where they are filled.  The same holds for
  the function-local \<^verbatim>\<open>static\<close> matrices of the two helpers below.  The assertions
  \<^verbatim>\<open>assert(_t == 1)\<close> are compiled out of release builds and are not modelled.

  A division by zero is no error in the program: the IEEE quotient is an infinity or
  not a number.  The real numbers have no such values, and the quotient \<open>x / 0\<close> of
  the logic is 0.  The divisions of the updates of \<open>m_w\<close> whose divisor is a row sum
  of \<open>m_h\<close> are written with \<open>ieeeQuotient\<close>, which says nothing about a quotient by 0,
  and the update of \<open>factorizeNMDKL\<close> records the divisors it uses.  The other
  statements below that are about the values of the matrices are made where no
  divisor is zero.
\<close>

definition factorizeNMFEDWUpdate :: "deconvolver \<Rightarrow> matrix \<Rightarrow> matrix" where
  "factorizeNMFEDWUpdate st w =
     (if \<not> m_wConstant st then
        (let wUpdateMatrixNum = multWithTransposedMatrix (m_v st) (m_h st)
                                  (Matrix_new (rows (m_v st)) (rows (m_h st)));
             hhT = multWithTransposedMatrix (m_h st) (m_h st)
                                  (Matrix_new (rows (m_h st)) (rows (m_h st)));
             wUpdateMatrixDenom = multWithMatrix w hhT
                                  (Matrix_new (rows (m_v st)) (rows (m_h st)))
         in forUpTo (cols w) (\<lambda>j w.
              if \<not> m_wColConstant st ! j then
                forUpTo (rows w) (\<lambda>i w.
                  (let denom = atM wUpdateMatrixDenom i j;
                       denom = (if denom \<le> 0 then DIVISOR_FLOOR else denom)
                   in setAt w i j (atM w i j * (atM wUpdateMatrixNum i j / denom)))) w
              else w) w)
      else w)"

definition calculateNMFEDHUpdate :: "deconvolver \<Rightarrow> matrix \<Rightarrow> matrix \<Rightarrow> matrix \<times> matrix" where
  "calculateNMFEDHUpdate st num denom =
     (let num = multWithMatrixSub (m_w st ! 0) (m_v st) num True False
                  (rows (m_h st)) (rows (m_v st)) (cols (m_h st)) 0 0 0 0 0 0;
          wTw = multWithMatrixSub (m_w st ! 0) (m_w st ! 0)
                  (Matrix_new (rows (m_h st)) (rows (m_h st))) True False
                  (rows (m_h st)) (rows (m_w st ! 0)) (rows (m_h st)) 0 0 0 0 0 0;
          denom = multWithMatrix wTw (m_h st) denom
      in (num, denom))"

text \<open>One round of the loop of \<^verbatim>\<open>factorizeNMFED\<close>, up to the call of \<^verbatim>\<open>nextItStep\<close>.\<close>
definition factorizeNMFED_body :: "deconvolver \<Rightarrow> deconvolver" where
  "factorizeNMFED_body st =
     (let w = factorizeNMFEDWUpdate st (m_w st ! 0);
          st = st\<lparr>m_w := (m_w st)[0 := w]\<rparr>;
          (hUpdateMatrixNum, hUpdateMatrixDenom) =
             calculateNMFEDHUpdate st (Matrix_new (rows (m_h st)) (cols (m_h st)))
                                      (Matrix_new (rows (m_h st)) (cols (m_h st)));
          h = forUpTo (cols (m_h st)) (\<lambda>j h.
                forUpTo (rows h) (\<lambda>i h.
                  (let denom = atM hUpdateMatrixDenom i j;
                       denom = (if denom \<le> 0 then DIVISOR_FLOOR else denom)
                   in setAt h i j (atM h i j * (atM hUpdateMatrixNum i j / denom)))) h) (m_h st)
      in st\<lparr>m_h := h\<rparr>)"

text \<open>The iteration counter and the notification delay are touched by \<^verbatim>\<open>nextItStep\<close>
  only; the loops below terminate because every round increments the counter.\<close>

lemma computeApprox_numSteps [simp]: "m_numSteps (computeApprox st) = m_numSteps st"
  by (simp add: computeApprox_def Let_def split: prod.splits)

lemma computeApprox_notificationDelay [simp]:
  "m_notificationDelay (computeApprox st) = m_notificationDelay st"
  by (simp add: computeApprox_def Let_def split: prod.splits)

lemma checkConvergence_numSteps [simp]:
  "m_numSteps (snd (checkConvergence eps b st)) = m_numSteps st"
  by (simp add: checkConvergence_def Let_def split: option.splits)

lemma checkConvergence_notificationDelay [simp]:
  "m_notificationDelay (snd (checkConvergence eps b st)) = m_notificationDelay st"
  by (simp add: checkConvergence_def Let_def split: option.splits)

lemma nextItStep_numSteps [simp]:
  "m_numSteps (fst (nextItStep observer maxSteps st)) = m_numSteps st + 1"
  by (simp add: nextItStep_def Let_def split: option.splits)

lemma nextItStep_notificationDelay [simp]:
  "m_notificationDelay (fst (nextItStep observer maxSteps st)) = m_notificationDelay st"
  by (simp add: nextItStep_def Let_def split: option.splits)

lemma factorizeNMFED_body_numSteps [simp]:
  "m_numSteps (factorizeNMFED_body st) = m_numSteps st"
  by (simp add: factorizeNMFED_body_def Let_def split: prod.splits)

lemma factorizeNMFED_body_notificationDelay [simp]:
  "m_notificationDelay (factorizeNMFED_body st) = m_notificationDelay st"
  by (simp add: factorizeNMFED_body_def Let_def split: prod.splits)

text \<open>The loop \<^verbatim>\<open>while (_numSteps < maxSteps && !checkConvergence(eps, true))\<close>: the
  convergence check runs, with its effects on the state, only if the step bound has not
  been reached.\<close>
function factorizeNMFED_loop ::
  "nat \<Rightarrow> real \<Rightarrow> ProgressObserver option \<Rightarrow> deconvolver \<Rightarrow> deconvolver \<times> ProgressObserver option" where
  "factorizeNMFED_loop maxSteps eps observer st =
     (if m_numSteps st < maxSteps then
        (let c = checkConvergence eps True st
         in if \<not> fst c then
              (let n = nextItStep observer maxSteps (factorizeNMFED_body (snd c))
               in factorizeNMFED_loop maxSteps eps (snd n) (fst n))
            else (snd c, observer))
      else (st, observer))"
  by pat_completeness auto
termination
  by (relation "measure (\<lambda>(maxSteps, eps, observer, st). maxSteps - m_numSteps st)") simp_all

declare factorizeNMFED_loop.simps [simp del]

definition factorizeNMFED ::
  "nat \<Rightarrow> real \<Rightarrow> ProgressObserver option \<Rightarrow> deconvolver \<Rightarrow> deconvolver \<times> ProgressObserver option" where
  "factorizeNMFED maxSteps eps observer st =
     factorizeNMFED_loop maxSteps eps observer (st\<lparr>m_numSteps := 0\<rparr>)"


lemma forUpTo_invariant:
  assumes "P x" and "\<And>i y. P y \<Longrightarrow> P (body i y)"
  shows "P (forUpTo n body x)"
proof -
  have "P (fold body xs x)" for xs
    using assms(1) by (induction xs arbitrary: x) (simp_all add: assms(2))
  then show ?thesis by (simp add: forUpTo_def)
qed

text \<open>The block \<^verbatim>\<open>if (!_wConstant) { ... }\<close> of \<^verbatim>\<open>factorizeNMDED\<close>: the update of all
  \<^verbatim>\<open>_w[p]\<close> with the difference-based update of \<^verbatim>\<open>_approx\<close>.\<close>
definition factorizeNMDED_WUpdate :: "deconvolver \<Rightarrow> deconvolver" where
  "factorizeNMDED_WUpdate st =
     (if \<not> m_wConstant st then
        forUpTo (m_t st) (\<lambda>p st.
          (let wUpdateMatrixNum = multWithMatrixSub (m_v st) (m_h st)
                   (Matrix_new (rows (m_v st)) (rows (m_h st))) False True
                   (rows (m_v st)) (usub (cols (m_v st)) p) (rows (m_h st)) 0 p 0 0 0 0;
               wUpdateMatrixDenom = multWithMatrixSub (m_approx st) (m_h st)
                   (Matrix_new (rows (m_v st)) (rows (m_h st))) False True
                   (rows (m_v st)) (usub (cols (m_v st)) p) (rows (m_h st)) 0 p 0 0 0 0;
               wpH = computeWpH st p (Matrix_new (rows (m_v st)) (cols (m_v st)));
               st = st\<lparr>m_approx := subM (m_approx st) wpH\<rparr>;
               wp = forUpTo (cols (m_w st ! p)) (\<lambda>j wp.
                      if \<not> m_wColConstant st ! j then
                        forUpTo (rows wp) (\<lambda>i wp.
                          (let denom = atM wUpdateMatrixDenom i j;
                               denom = (if denom \<le> 0 then DIVISOR_FLOOR else denom)
                           in setAt wp i j (atM wp i j * (atM wUpdateMatrixNum i j / denom)))) wp
                      else wp) (m_w st ! p);
               st = st\<lparr>m_w := (m_w st)[p := wp]\<rparr>;
               wpH = computeWpH st p wpH;
               st = st\<lparr>m_approx := addM (m_approx st) wpH\<rparr>
           in st\<lparr>m_approx := ensureNonnegativity (m_approx st) defaultEpsilon\<rparr>)) st
      else st)"

text \<open>One round of the loop of \<^verbatim>\<open>factorizeNMDED\<close>, after the convergence check and up to
  the call of \<^verbatim>\<open>nextItStep\<close>.\<close>
definition factorizeNMDED_body :: "deconvolver \<Rightarrow> deconvolver" where
  "factorizeNMDED_body st =
     (let st = factorizeNMDED_WUpdate st;
          hSum = zeroM (Matrix_new (rows (m_h st)) (cols (m_h st)));
          hSum = forUpTo (m_t st) (\<lambda>p hSum.
            (let hUpdateMatrixNum = multWithMatrixSub (m_w st ! p) (m_v st)
                     (Matrix_new (rows (m_h st)) (cols (m_h st))) True False
                     (cols (m_w st ! p)) (rows (m_w st ! p)) (usub (cols (m_v st)) p) 0 0 0 p 0 0;
                 hUpdateMatrixDenom = multWithMatrixSub (m_w st ! p) (m_approx st)
                     (Matrix_new (rows (m_h st)) (cols (m_h st))) True False
                     (cols (m_w st ! p)) (rows (m_w st ! p)) (usub (cols (m_v st)) p) 0 0 0 p 0 0
             in forUpTo (usub (cols (m_h st)) p) (\<lambda>j hSum.
                  forUpTo (rows (m_h st)) (\<lambda>i hSum.
                    (let denom = atM hUpdateMatrixDenom i j;
                         denom = (if denom \<le> 0 then DIVISOR_FLOOR else denom)
                     in setAt hSum i j
                          (atM hSum i j + atM (m_h st) i j * atM hUpdateMatrixNum i j / denom))) hSum) hSum)) hSum;
          h = forUpTo (cols (m_h st)) (\<lambda>j h.
                forUpTo (rows h) (\<lambda>i h. setAt h i j (atM hSum i j / real (m_t st))) h) (m_h st)
      in st\<lparr>m_h := h\<rparr>)"

lemma factorizeNMDED_WUpdate_numSteps [simp]:
  "m_numSteps (factorizeNMDED_WUpdate st) = m_numSteps st"
  unfolding factorizeNMDED_WUpdate_def
  by (simp, intro impI forUpTo_invariant [where P = "\<lambda>s. m_numSteps s = m_numSteps st"])
     (simp_all add: Let_def)

lemma factorizeNMDED_WUpdate_notificationDelay [simp]:
  "m_notificationDelay (factorizeNMDED_WUpdate st) = m_notificationDelay st"
  unfolding factorizeNMDED_WUpdate_def
  by (simp, intro impI forUpTo_invariant [where P = "\<lambda>s. m_notificationDelay s = m_notificationDelay st"])
     (simp_all add: Let_def)

lemma factorizeNMDED_body_numSteps [simp]:
  "m_numSteps (factorizeNMDED_body st) = m_numSteps st"
  by (simp add: factorizeNMDED_body_def Let_def)

lemma factorizeNMDED_body_notificationDelay [simp]:
  "m_notificationDelay (factorizeNMDED_body st) = m_notificationDelay st"
  by (simp add: factorizeNMDED_body_def Let_def)

text \<open>The loop \<^verbatim>\<open>while (_numSteps < maxSteps)\<close> of \<^verbatim>\<open>factorizeNMDED\<close>: the approximation is
  recomputed, then the convergence check may leave the loop by \<^verbatim>\<open>break\<close>.\<close>
function factorizeNMDED_loop ::
  "nat \<Rightarrow> real \<Rightarrow> ProgressObserver option \<Rightarrow> deconvolver \<Rightarrow> deconvolver \<times> ProgressObserver option" where
  "factorizeNMDED_loop maxSteps eps observer st =
     (if m_numSteps st < maxSteps then
        (let c = checkConvergence eps False (computeApprox st)
         in if fst c then (snd c, observer)
            else
              (let n = nextItStep observer maxSteps (factorizeNMDED_body (snd c))
               in factorizeNMDED_loop maxSteps eps (snd n) (fst n)))
      else (st, observer))"
  by pat_completeness auto
termination
  by (relation "measure (\<lambda>(maxSteps, eps, observer, st). maxSteps - m_numSteps st)") simp_all

declare factorizeNMDED_loop.simps [simp del]

definition factorizeNMDED ::
  "nat \<Rightarrow> real \<Rightarrow> ProgressObserver option \<Rightarrow> deconvolver \<Rightarrow> deconvolver \<times> ProgressObserver option" where
  "factorizeNMDED maxSteps eps observer st =
     factorizeNMDED_loop maxSteps eps observer (st\<lparr>m_numSteps := 0\<rparr>)"


text \<open>
  The block \<^verbatim>\<open>if (!_wConstant) { ... }\<close> of \<^verbatim>\<open>factorizeNMDKL\<close>.  The loop over \<open>p\<close>
  carries the local copy \<^verbatim>\<open>hShifted\<close> of \<^verbatim>\<open>_h\<close>.  The divisor \<^verbatim>\<open>hRowSum\<close> is the row sum
  of \<^verbatim>\<open>hShifted\<close> as it is.  Besides the engine, the function returns the divisors of
  the divisions \<^verbatim>\<open>wUpdateNum(i, j) / hRowSum\<close> that the block executes, in the order
  of their execution.
\<close>
definition factorizeNMDKL_WUpdate :: "matrix \<Rightarrow> deconvolver \<Rightarrow> deconvolver \<times> real list" where
  "factorizeNMDKL_WUpdate vOverApprox st =
     (if \<not> m_wConstant st then
        (let hShifted = m_h st
         in snd (forUpTo (m_t st) (\<lambda>p (hShifted, st, divisors).
              (let wpH = Matrix_new (rows (m_v st)) (cols (m_v st));
                   wpH = (if m_t st > 1 then computeWpH st p wpH else wpH);
                   st = (if m_t st > 1 then st\<lparr>m_approx := subM (m_approx st) wpH\<rparr> else st);
                   wUpdateNum = multWithTransposedMatrix vOverApprox hShifted
                                  (Matrix_new (rows (m_v st)) (rows (m_h st)));
                   (wp, divisors) = forUpTo (cols (m_w st ! p)) (\<lambda>j (wp, divisors).
                          if \<not> m_wColConstant st ! j then
                            (let hRowSum = rowSum hShifted j
                             in forUpTo (rows wp) (\<lambda>i (wp, divisors).
                                  (setAt wp i j
                                     (atM wp i j * ieeeQuotient (atM wUpdateNum i j) hRowSum),
                                   divisors @ [hRowSum])) (wp, divisors))
                          else (wp, divisors)) (m_w st ! p, divisors);
                   st = st\<lparr>m_w := (m_w st)[p := wp]\<rparr>
               in if m_t st > 1 then
                    (let wpH = computeWpH st p wpH;
                         st = st\<lparr>m_approx := addM (m_approx st) wpH\<rparr>;
                         st = st\<lparr>m_approx := ensureNonnegativity (m_approx st) defaultEpsilon\<rparr>
                     in (shiftColumnsRight hShifted, st, divisors))
                  else (hShifted, st, divisors))) (hShifted, st, [])))
      else (st, []))"

text \<open>One round of the loop of \<^verbatim>\<open>factorizeNMDKL\<close>, after the convergence check and up to
  the call of \<^verbatim>\<open>nextItStep\<close>.  The column sums \<^verbatim>\<open>wpColSums[i]\<close> are replaced by the floor
  only when they are equal to 0.\<close>
definition factorizeNMDKL_body :: "deconvolver \<Rightarrow> deconvolver" where
  "factorizeNMDKL_body st =
     (let vOverApprox = elementWiseDivision (m_v st) (m_approx st)
                          (Matrix_new (rows (m_v st)) (cols (m_v st)));
          st = fst (factorizeNMDKL_WUpdate vOverApprox st);
          st = (if m_t st = 1 then computeApprox st else st);
          vOverApprox = elementWiseDivision (m_v st) (m_approx st) vOverApprox;
          hUpdate = zeroM (Matrix_new (rows (m_h st)) (cols (m_h st)));
          hUpdate = forUpTo (m_t st) (\<lambda>p hUpdate.
            (let wpColSums = forUpTo (rows (m_h st)) (\<lambda>i wpColSums.
                     (let wpColSums = wpColSums[i := colSum (m_w st ! p) i]
                      in if wpColSums ! i = 0 then wpColSums[i := DIVISOR_FLOOR] else wpColSums))
                     (replicate (rows (m_h st)) undefined);
                 hUpdateMatrixNum = multWithMatrixSub (m_w st ! p) vOverApprox
                     (Matrix_new (rows (m_h st)) (cols (m_h st))) True False
                     (cols (m_w st ! p)) (rows (m_w st ! p)) (usub (cols (m_v st)) p) 0 0 0 p 0 0
             in forUpTo (usub (cols (m_h st)) p) (\<lambda>j hUpdate.
                  forUpTo (rows (m_h st)) (\<lambda>i hUpdate.
                    setAt hUpdate i j
                      (atM hUpdate i j + atM hUpdateMatrixNum i j / wpColSums ! i)) hUpdate) hUpdate)) hUpdate;
          h = forUpTo (cols (m_h st)) (\<lambda>j h.
                forUpTo (rows h) (\<lambda>i h.
                  setAt h i j (atM h i j * (atM hUpdate i j / real (m_t st)))) h) (m_h st)
      in st\<lparr>m_h := h\<rparr>)"

lemma factorizeNMDKL_WUpdate_numSteps [simp]:
  "m_numSteps (fst (factorizeNMDKL_WUpdate r st)) = m_numSteps st"
  unfolding factorizeNMDKL_WUpdate_def
  by (simp add: Let_def,
      intro impI forUpTo_invariant [where P = "\<lambda>x. m_numSteps (fst (snd x)) = m_numSteps st"])
     (auto simp: Let_def split: prod.splits)

lemma factorizeNMDKL_WUpdate_notificationDelay [simp]:
  "m_notificationDelay (fst (factorizeNMDKL_WUpdate r st)) = m_notificationDelay st"
  unfolding factorizeNMDKL_WUpdate_def
  by (simp add: Let_def,
      intro impI forUpTo_invariant [where P = "\<lambda>x. m_notificationDelay (fst (snd x)) = m_notificationDelay st"])
     (auto simp: Let_def split: prod.splits)

lemma factorizeNMDKL_body_numSteps [simp]:
  "m_numSteps (factorizeNMDKL_body st) = m_numSteps st"
  by (simp add: factorizeNMDKL_body_def Let_def)

lemma factorizeNMDKL_body_notificationDelay [simp]:
  "m_notificationDelay (factorizeNMDKL_body st) = m_notificationDelay st"
  by (simp add: factorizeNMDKL_body_def Let_def)

function factorizeNMDKL_loop ::
  "nat \<Rightarrow> real \<Rightarrow> ProgressObserver option \<Rightarrow> deconvolver \<Rightarrow> deconvolver \<times> ProgressObserver option" where
  "factorizeNMDKL_loop maxSteps eps observer st =
     (if m_numSteps st < maxSteps then
        (let c = checkConvergence eps False (computeApprox st)
         in if fst c then (snd c, observer)
            else
              (let n = nextItStep observer maxSteps (factorizeNMDKL_body (snd c))
               in factorizeNMDKL_loop maxSteps eps (snd n) (fst n)))
      else (st, observer))"
  by pat_completeness auto
termination
  by (relation "measure (\<lambda>(maxSteps, eps, observer, st). maxSteps - m_numSteps st)") simp_all

declare factorizeNMDKL_loop.simps [simp del]

definition factorizeNMDKL ::
  "nat \<Rightarrow> real \<Rightarrow> ProgressObserver option \<Rightarrow> deconvolver \<Rightarrow> deconvolver \<times> ProgressObserver option" where
  "factorizeNMDKL maxSteps eps observer st =
     factorizeNMDKL_loop maxSteps eps observer (st\<lparr>m_numSteps := 0\<rparr>)"


text \<open>One round of the loop of \<^verbatim>\<open>factorizeNMFEDSparse\<close>, up to the call of
  \<^verbatim>\<open>nextItStep\<close>.  \<^verbatim>\<open>sqrtT\<close> is computed once before the loop from the number of columns
  of \<^verbatim>\<open>_h\<close>, which never changes.\<close>
definition factorizeNMFEDSparse_body :: "deconvolver \<Rightarrow> deconvolver" where
  "factorizeNMFEDSparse_body st =
     (let sqrtT = sqrt (real (cols (m_h st)));
          w = factorizeNMFEDWUpdate st (m_w st ! 0);
          st = st\<lparr>m_w := (m_w st)[0 := w]\<rparr>;
          (hUpdateMatrixNum, hUpdateMatrixDenom) =
             calculateNMFEDHUpdate st (Matrix_new (rows (m_h st)) (cols (m_h st)))
                                      (Matrix_new (rows (m_h st)) (cols (m_h st)));
          (csplus, csminus) = forUpTo (rows (m_h st)) (\<lambda>i (csplus, csminus).
             (let hRowSumSq = dotRowRow (m_h st) i (m_h st) i;
                  hRowLength = sqrt hRowSumSq
              in (csplus[i := sqrtT / hRowLength],
                  csminus[i := sqrtT * rowSum (m_h st) i / (hRowSumSq * hRowLength)])))
             (replicate (rows (m_h st)) undefined, replicate (rows (m_h st)) undefined);
          h = forUpTo (cols (m_h st)) (\<lambda>j h.
                forUpTo (rows h) (\<lambda>i h.
                  (let denom = atM hUpdateMatrixDenom i j + atM (m_s st) i j * csplus ! i;
                       denom = (if denom \<le> 0 then DIVISOR_FLOOR else denom)
                   in setAt h i j
                        (atM h i j *
                          ((atM hUpdateMatrixNum i j + atM (m_s st) i j * atM h i j * csminus ! i)
                           / denom)))) h) (m_h st)
      in st\<lparr>m_h := h\<rparr>)"

lemma factorizeNMFEDSparse_body_numSteps [simp]:
  "m_numSteps (factorizeNMFEDSparse_body st) = m_numSteps st"
  by (simp add: factorizeNMFEDSparse_body_def Let_def split: prod.splits)

lemma factorizeNMFEDSparse_body_notificationDelay [simp]:
  "m_notificationDelay (factorizeNMFEDSparse_body st) = m_notificationDelay st"
  by (simp add: factorizeNMFEDSparse_body_def Let_def split: prod.splits)

function factorizeNMFEDSparse_loop ::
  "nat \<Rightarrow> real \<Rightarrow> ProgressObserver option \<Rightarrow> deconvolver \<Rightarrow> deconvolver \<times> ProgressObserver option" where
  "factorizeNMFEDSparse_loop maxSteps eps observer st =
     (if m_numSteps st < maxSteps then
        (let c = checkConvergence eps True st
         in if \<not> fst c then
              (let n = nextItStep observer maxSteps (factorizeNMFEDSparse_body (snd c))
               in factorizeNMFEDSparse_loop maxSteps eps (snd n) (fst n))
            else (snd c, observer))
      else (st, observer))"
  by pat_completeness auto
termination
  by (relation "measure (\<lambda>(maxSteps, eps, observer, st). maxSteps - m_numSteps st)") simp_all

declare factorizeNMFEDSparse_loop.simps [simp del]

definition factorizeNMFEDSparse ::
  "nat \<Rightarrow> real \<Rightarrow> ProgressObserver option \<Rightarrow> deconvolver \<Rightarrow> deconvolver \<times> ProgressObserver option" where
  "factorizeNMFEDSparse maxSteps eps observer st =
     factorizeNMFEDSparse_loop maxSteps eps observer (st\<lparr>m_numSteps := 0\<rparr>)"

text \<open>One round of the loop of \<^verbatim>\<open>factorizeNMFKLSparse\<close>, after the convergence check and
  up to the call of \<^verbatim>\<open>nextItStep\<close>.  The divisor \<^verbatim>\<open>hRowSums[j]\<close> of the update of
  \<^verbatim>\<open>w\<close> is used as it is.\<close>
definition factorizeNMFKLSparse_body :: "deconvolver \<Rightarrow> deconvolver" where
  "factorizeNMFKLSparse_body st =
     (let sqrtT = sqrt (real (cols (m_h st)));
          vOverApprox = elementWiseDivision (m_v st) (m_approx st)
                          (Matrix_new (rows (m_v st)) (cols (m_v st)));
          wUpdateNum = multWithTransposedMatrix vOverApprox (m_h st)
                          (Matrix_new (rows (m_v st)) (rows (m_h st)));
          hRowSums = forUpTo (rows (m_h st)) (\<lambda>i hRowSums. hRowSums[i := rowSum (m_h st) i])
                          (replicate (rows (m_h st)) undefined);
          w = (if \<not> m_wConstant st then
                 forUpTo (cols (m_w st ! 0)) (\<lambda>j w.
                   if \<not> m_wColConstant st ! j then
                     forUpTo (rows w) (\<lambda>i w.
                       setAt w i j (atM w i j * ieeeQuotient (atM wUpdateNum i j) (hRowSums ! j))) w
                   else w) (m_w st ! 0)
               else m_w st ! 0);
          st = (if \<not> m_wConstant st then computeApprox (st\<lparr>m_w := (m_w st)[0 := w]\<rparr>) else st);
          vOverApprox = (if \<not> m_wConstant st
                         then elementWiseDivision (m_v st) (m_approx st) vOverApprox
                         else vOverApprox);
          (csplus, csminus, wColSums) = forUpTo (rows (m_h st)) (\<lambda>i (csplus, csminus, wColSums).
             (let hRowSumSq = dotRowRow (m_h st) i (m_h st) i;
                  hRowLength = sqrt hRowSumSq
              in (csplus[i := sqrtT / hRowLength],
                  csminus[i := sqrtT * hRowSums ! i / (hRowSumSq * hRowLength)],
                  wColSums[i := colSum (m_w st ! 0) i])))
             (replicate (rows (m_h st)) undefined, replicate (rows (m_h st)) undefined,
              replicate (cols (m_w st ! 0)) undefined);
          hUpdateMatrixNum = multWithMatrixSub (m_w st ! 0) vOverApprox
                 (Matrix_new (rows (m_h st)) (cols (m_h st))) True False
                 (rows (m_h st)) (rows (m_v st)) (cols (m_h st)) 0 0 0 0 0 0;
          h = forUpTo (cols (m_h st)) (\<lambda>j h.
                forUpTo (rows h) (\<lambda>i h.
                  (let denom = wColSums ! i + atM (m_s st) i j * csplus ! i;
                       denom = (if denom \<le> 0 then DIVISOR_FLOOR else denom)
                   in setAt h i j
                        (atM h i j *
                          ((atM hUpdateMatrixNum i j + atM (m_s st) i j * atM h i j * csminus ! i)
                           / denom)))) h) (m_h st)
      in st\<lparr>m_h := h\<rparr>)"

lemma factorizeNMFKLSparse_body_numSteps [simp]:
  "m_numSteps (factorizeNMFKLSparse_body st) = m_numSteps st"
  by (simp add: factorizeNMFKLSparse_body_def Let_def split: prod.splits)

lemma factorizeNMFKLSparse_body_notificationDelay [simp]:
  "m_notificationDelay (factorizeNMFKLSparse_body st) = m_notificationDelay st"
  by (simp add: factorizeNMFKLSparse_body_def Let_def split: prod.splits)

function factorizeNMFKLSparse_loop ::
  "nat \<Rightarrow> real \<Rightarrow> ProgressObserver option \<Rightarrow> deconvolver \<Rightarrow> deconvolver \<times> ProgressObserver option" where
  "factorizeNMFKLSparse_loop maxSteps eps observer st =
     (if m_numSteps st < maxSteps then
        (let c = checkConvergence eps False (computeApprox st)
         in if fst c then (snd c, observer)
            else
              (let n = nextItStep observer maxSteps (factorizeNMFKLSparse_body (snd c))
               in factorizeNMFKLSparse_loop maxSteps eps (snd n) (fst n)))
      else (st, observer))"
  by pat_completeness auto
termination
  by (relation "measure (\<lambda>(maxSteps, eps, observer, st). maxSteps - m_numSteps st)") simp_all

declare factorizeNMFKLSparse_loop.simps [simp del]

definition factorizeNMFKLSparse ::
  "nat \<Rightarrow> real \<Rightarrow> ProgressObserver option \<Rightarrow> deconvolver \<Rightarrow> deconvolver \<times> ProgressObserver option" where
  "factorizeNMFKLSparse maxSteps eps observer st =
     factorizeNMFKLSparse_loop maxSteps eps observer (st\<lparr>m_numSteps := 0\<rparr>)"

text \<open>One round of the loop of \<^verbatim>\<open>factorizeNMFKLTempCont\<close>, after the convergence check and
  up to the call of \<^verbatim>\<open>nextItStep\<close>.  The update of \<^verbatim>\<open>_h\<close> reads the right neighbour from
  \<^verbatim>\<open>_h\<close> itself and the left neighbour from the copy \<^verbatim>\<open>oldH\<close>.\<close>
definition factorizeNMFKLTempCont_body :: "deconvolver \<Rightarrow> deconvolver" where
  "factorizeNMFKLTempCont_body st =
     (let oldH = m_h st;
          vOverApprox = elementWiseDivision (m_v st) (m_approx st)
                          (Matrix_new (rows (m_v st)) (cols (m_v st)));
          wUpdateNum = multWithTransposedMatrix vOverApprox (m_h st)
                          (Matrix_new (rows (m_v st)) (rows (m_h st)));
          hRowSums = forUpTo (rows (m_h st)) (\<lambda>i hRowSums. hRowSums[i := rowSum (m_h st) i])
                          (replicate (rows (m_h st)) undefined);
          w = (if \<not> m_wConstant st then
                 forUpTo (cols (m_w st ! 0)) (\<lambda>j w.
                   if \<not> m_wColConstant st ! j then
                     forUpTo (rows w) (\<lambda>i w.
                       setAt w i j (atM w i j * ieeeQuotient (atM wUpdateNum i j) (hRowSums ! j))) w
                   else w) (m_w st ! 0)
               else m_w st ! 0);
          st = (if \<not> m_wConstant st then computeApprox (st\<lparr>m_w := (m_w st)[0 := w]\<rparr>) else st);
          vOverApprox = (if \<not> m_wConstant st
                         then elementWiseDivision (m_v st) (m_approx st) vOverApprox
                         else vOverApprox);
          (ctplus, ctminus1, ctminus2, wColSums) =
            forUpTo (rows (m_h st)) (\<lambda>i (ctplus, ctminus1, ctminus2, wColSums).
             (let hRowSumSq = dotRowRow (m_h st) i (m_h st) i;
                  wColSums = wColSums[i := colSum (m_w st ! 0) i];
                  hDeltaSumSq = forFromTo 1 (cols (m_h st)) (\<lambda>j hDeltaSumSq.
                     (let hDelta = atM (m_h st) i j - atM (m_h st) i (j - 1)
                      in hDeltaSumSq + hDelta * hDelta)) 0
              in (ctplus[i := 4 * real (cols (m_h st)) / hRowSumSq],
                  ctminus1[i := 2 * real (cols (m_h st)) / hRowSumSq],
                  ctminus2[i := 2 * real (cols (m_h st)) * hDeltaSumSq / (hRowSumSq * hRowSumSq)],
                  wColSums)))
             (replicate (rows (m_h st)) undefined, replicate (rows (m_h st)) undefined,
              replicate (rows (m_h st)) undefined, replicate (cols (m_w st ! 0)) undefined);
          hUpdateMatrixNum = multWithMatrixSub (m_w st ! 0) vOverApprox
                 (Matrix_new (rows (m_h st)) (cols (m_h st))) True False
                 (rows (m_h st)) (rows (m_v st)) (cols (m_h st)) 0 0 0 0 0 0;
          h = forUpTo (cols (m_h st)) (\<lambda>j h.
                forUpTo (rows h) (\<lambda>i h.
                  (let denom = wColSums ! i + atM (m_c st) i j * atM h i j * ctplus ! i;
                       denom = (if denom \<le> 0 then DIVISOR_FLOOR else denom);
                       l = (if j = 0 then 0 else atM oldH i (j - 1));
                       r = (if j = usub (cols h) 1 then 0 else atM h i (j + 1))
                   in setAt h i j
                        (atM h i j *
                          ((atM hUpdateMatrixNum i j
                            + atM (m_c st) i j * ((l + r) * ctminus1 ! i + atM h i j * ctminus2 ! i))
                           / denom)))) h) (m_h st)
      in st\<lparr>m_h := h\<rparr>)"

lemma factorizeNMFKLTempCont_body_numSteps [simp]:
  "m_numSteps (factorizeNMFKLTempCont_body st) = m_numSteps st"
  by (simp add: factorizeNMFKLTempCont_body_def Let_def split: prod.splits)

lemma factorizeNMFKLTempCont_body_notificationDelay [simp]:
  "m_notificationDelay (factorizeNMFKLTempCont_body st) = m_notificationDelay st"
  by (simp add: factorizeNMFKLTempCont_body_def Let_def split: prod.splits)

function factorizeNMFKLTempCont_loop ::
  "nat \<Rightarrow> real \<Rightarrow> ProgressObserver option \<Rightarrow> deconvolver \<Rightarrow> deconvolver \<times> ProgressObserver option" where
  "factorizeNMFKLTempCont_loop maxSteps eps observer st =
     (if m_numSteps st < maxSteps then
        (let c = checkConvergence eps False (computeApprox st)
         in if fst c then (snd c, observer)
            else
              (let n = nextItStep observer maxSteps (factorizeNMFKLTempCont_body (snd c))
               in factorizeNMFKLTempCont_loop maxSteps eps (snd n) (fst n)))
      else (st, observer))"
  by pat_completeness auto
termination
  by (relation "measure (\<lambda>(maxSteps, eps, observer, st). maxSteps - m_numSteps st)") simp_all

declare factorizeNMFKLTempCont_loop.simps [simp del]

definition factorizeNMFKLTempCont ::
  "nat \<Rightarrow> real \<Rightarrow> ProgressObserver option \<Rightarrow> deconvolver \<Rightarrow> deconvolver \<times> ProgressObserver option" where
  "factorizeNMFKLTempCont maxSteps eps observer st =
     factorizeNMFKLTempCont_loop maxSteps eps observer (st\<lparr>m_numSteps := 0\<rparr>)"

text \<open>One round of the loop of \<^verbatim>\<open>factorizeNMFEDSparseNorm\<close>, up to the call of
  \<^verbatim>\<open>nextItStep\<close>.  The normalisation of the columns of \<^verbatim>\<open>w\<close> consults neither
  \<^verbatim>\<open>_wConstant\<close> nor \<^verbatim>\<open>_wColConstant\<close>; the update of \<^verbatim>\<open>w\<close> consults
  \<^verbatim>\<open>_wColConstant\<close> only.\<close>
definition factorizeNMFEDSparseNorm_body :: "deconvolver \<Rightarrow> deconvolver" where
  "factorizeNMFEDSparseNorm_body st =
     (let w = forUpTo (cols (m_w st ! 0)) (\<lambda>j w.
                (let norm = sqrt (dotColCol w j w j)
                 in forUpTo (rows w) (\<lambda>i w. setAt w i j (atM w i j / norm)) w)) (m_w st ! 0);
          hUpdateMatrixNum = multWithMatrixSub w (m_v st)
                 (Matrix_new (rows (m_h st)) (cols (m_h st))) True False
                 (rows (m_h st)) (rows (m_v st)) (cols (m_h st)) 0 0 0 0 0 0;
          wTw = multWithMatrixSub w w
                 (Matrix_new (rows (m_h st)) (rows (m_h st))) True False
                 (rows (m_h st)) (rows w) (rows (m_h st)) 0 0 0 0 0 0;
          hUpdateMatrixDenom = multWithMatrix wTw (m_h st)
                 (Matrix_new (rows (m_h st)) (cols (m_h st)));
          h = forUpTo (cols (m_h st)) (\<lambda>j h.
                forUpTo (rows h) (\<lambda>i h.
                  (let denom = atM hUpdateMatrixDenom i j + atM (m_s st) i j;
                       denom = (if denom \<le> 0 then DIVISOR_FLOOR else denom)
                   in setAt h i j (atM h i j * (atM hUpdateMatrixNum i j / denom)))) h) (m_h st);
          wUpdateMatrixNum1 = multWithTransposedMatrix (m_v st) h
                 (Matrix_new (rows (m_v st)) (rows (m_h st)));
          hhT = multWithTransposedMatrix h h (Matrix_new (rows (m_h st)) (rows (m_h st)));
          wUpdateMatrixDenom1 = multWithMatrix w hhT
                 (Matrix_new (rows (m_v st)) (rows (m_h st)));
          wUpdateMatrixNum2 = multWithMatrix hhT wTw
                 (Matrix_new (rows (m_h st)) (rows (m_h st)));
          hvT = multWithTransposedMatrix h (m_v st)
                 (Matrix_new (rows (m_h st)) (rows (m_v st)));
          wUpdateMatrixDenom2 = multWithMatrix hvT w
                 (Matrix_new (rows (m_h st)) (rows (m_h st)));
          w = forUpTo (cols w) (\<lambda>j w.
                if \<not> m_wColConstant st ! j then
                  forUpTo (rows w) (\<lambda>i w.
                    (let num = atM wUpdateMatrixNum1 i j + atM wUpdateMatrixNum2 j j * atM w i j;
                         denom = atM wUpdateMatrixDenom1 i j + atM wUpdateMatrixDenom2 j j * atM w i j;
                         denom = (if denom \<le> 0 then DIVISOR_FLOOR else denom)
                     in setAt w i j (atM w i j * (num / denom)))) w
                else w) w
      in st\<lparr>m_w := (m_w st)[0 := w], m_h := h\<rparr>)"

lemma factorizeNMFEDSparseNorm_body_numSteps [simp]:
  "m_numSteps (factorizeNMFEDSparseNorm_body st) = m_numSteps st"
  by (simp add: factorizeNMFEDSparseNorm_body_def Let_def split: prod.splits)

lemma factorizeNMFEDSparseNorm_body_notificationDelay [simp]:
  "m_notificationDelay (factorizeNMFEDSparseNorm_body st) = m_notificationDelay st"
  by (simp add: factorizeNMFEDSparseNorm_body_def Let_def split: prod.splits)

function factorizeNMFEDSparseNorm_loop ::
  "nat \<Rightarrow> real \<Rightarrow> ProgressObserver option \<Rightarrow> deconvolver \<Rightarrow> deconvolver \<times> ProgressObserver option" where
  "factorizeNMFEDSparseNorm_loop maxSteps eps observer st =
     (if m_numSteps st < maxSteps then
        (let c = checkConvergence eps True st
         in if \<not> fst c then
              (let n = nextItStep observer maxSteps (factorizeNMFEDSparseNorm_body (snd c))
               in factorizeNMFEDSparseNorm_loop maxSteps eps (snd n) (fst n))
            else (snd c, observer))
      else (st, observer))"
  by pat_completeness auto
termination
  by (relation "measure (\<lambda>(maxSteps, eps, observer, st). maxSteps - m_numSteps st)") simp_all

declare factorizeNMFEDSparseNorm_loop.simps [simp del]

definition factorizeNMFEDSparseNorm ::
  "nat \<Rightarrow> real \<Rightarrow> ProgressObserver option \<Rightarrow> deconvolver \<Rightarrow> deconvolver \<times> ProgressObserver option" where
  "factorizeNMFEDSparseNorm maxSteps eps observer st =
     factorizeNMFEDSparseNorm_loop maxSteps eps observer (st\<lparr>m_numSteps := 0\<rparr>)"


section \<open>The facade\<close>

text \<open>
  \<^verbatim>\<open>decompose(cf, maxSteps, eps, observer)\<close>.  The result is the exception thrown, if any,
  together with the engine and the observer as the call leaves them: an exception is
  thrown by the dispatch, before a driver has been entered.
\<close>
definition decompose ::
  "NMFCostFunction \<Rightarrow> nat \<Rightarrow> real \<Rightarrow> ProgressObserver option \<Rightarrow> deconvolver \<Rightarrow>
   error option \<times> deconvolver \<times> ProgressObserver option" where
  "decompose cf maxSteps eps observer st =
     (let r =
        (if cf = EuclideanDistance then
           (if m_t st = 1 then Inr (factorizeNMFED maxSteps eps observer st)
            else Inr (factorizeNMDED maxSteps eps observer st))
         else if cf = KLDivergence then
           Inr (factorizeNMDKL maxSteps eps observer st)
         else if cf = EuclideanDistanceSparse then
           (if m_t st > 1 then Inl (runtime_error ''Sparse NMD not implemented'')
            else Inr (factorizeNMFEDSparse maxSteps eps observer st))
         else if cf = KLDivergenceSparse then
           (if m_t st > 1 then Inl (runtime_error ''Sparse NMD not implemented'')
            else Inr (factorizeNMFKLSparse maxSteps eps observer st))
         else if cf = KLDivergenceContinuous then
           (if m_t st > 1 then Inl (runtime_error ''Continuous NMD not implemented'')
            else Inr (factorizeNMFKLTempCont maxSteps eps observer st))
         else if cf = EuclideanDistanceSparseNormalized then
           (if m_t st > 1 then Inl (runtime_error ''Sparse NMD not implemented'')
            else Inr (factorizeNMFEDSparseNorm maxSteps eps observer st))
         else Inl (runtime_error ''Invalid cost function''))
      in case r of
           Inl e \<Rightarrow> (Some e, st, observer)
         | Inr (st, observer) \<Rightarrow>
             (let st = (if m_normalizeMatrices st then normalizeMatrices st else st);
                  observer = (case observer of
                                None \<Rightarrow> None
                              | Some ob \<Rightarrow> Some (progressChanged 1 ob));
                  st = (if m_oldApprox st \<noteq> None then st\<lparr>m_oldApprox := None\<rparr> else st)
              in (None, st, observer)))"

text \<open>
  The error kinds of the specification.  The program throws \<^verbatim>\<open>std::runtime_error\<close> in
  every case, so the kind of an error shows in its message only: the messages that end
  in "not implemented" are the kind Unsupported, the messages that begin with "Invalid"
  are the kind InvalidArgument.
\<close>
datatype errorKind = InvalidArgument | Unsupported

definition kindOf :: "error \<Rightarrow> errorKind option" where
  "kindOf e = (case e of runtime_error msg \<Rightarrow>
     if msg = ''Sparse NMD not implemented'' \<or> msg = ''Continuous NMD not implemented''
     then Some Unsupported
     else if take 7 msg = ''Invalid'' then Some InvalidArgument
     else None)"


text \<open>The fractions that \<open>nextItStep\<close> passes to an observer while the step counter
  advances from \<open>a\<close> to \<open>b\<close>: one for every step count in between that the notification
  delay divides, in the order of the steps.\<close>
definition notifications :: "nat \<Rightarrow> nat \<Rightarrow> nat \<Rightarrow> nat \<Rightarrow> real list" where
  "notifications delay maxSteps a b =
     map (\<lambda>k. floatFraction k maxSteps) (filter (\<lambda>k. k mod delay = 0) [Suc a..<Suc b])"

section \<open>Example engines\<close>

text \<open>A matrix given by its rows, and an engine as the constructor leaves it, with the
  matrices of \<^verbatim>\<open>_w\<close> and the matrix \<^verbatim>\<open>_h\<close> then set by \<^verbatim>\<open>setW\<close> and \<^verbatim>\<open>setH\<close>.  They serve
  as the concrete inputs of the statements below.\<close>
definition mat :: "real list list \<Rightarrow> matrix" where
  "mat xs = \<lparr>rows = length xs, cols = length (hd xs), atM = (\<lambda>i j. xs ! i ! j)\<rparr>"

definition exampleEngine :: "matrix \<Rightarrow> matrix list \<Rightarrow> matrix \<Rightarrow> deconvolver" where
  "exampleEngine v w h =
     \<lparr> m_v = v,
       m_approx = Matrix_gen (rows v) (cols v) zero_gen,
       m_oldApprox = None,
       m_w = w,
       m_wConstant = False,
       m_wColConstant = replicate (rows h) False,
       m_normalizeMatrices = False,
       m_t = length w,
       m_h = h,
       m_s = Matrix_gen (rows h) (cols v) zero_gen,
       m_c = Matrix_gen (rows h) (cols v) zero_gen,
       m_numSteps = 0,
       m_absoluteError = - 1,
       m_relativeError = - 1,
       m_vFrob = frobeniusNorm v,
       m_notificationDelay = 25 \<rparr>"

text \<open>The shapes that the constructor establishes and that \<^verbatim>\<open>setW\<close> and \<^verbatim>\<open>setH\<close> assert:
  \<open>v\<close> and the reconstruction are M-by-N, every matrix of \<open>m_w\<close> is M-by-R, \<open>m_h\<close> is
  R-by-N, there are \<open>m_t\<close> matrices in \<open>m_w\<close> with \<open>m_t\<close> at most N, and there are R column
  flags.\<close>
definition wellShaped :: "deconvolver \<Rightarrow> bool" where
  "wellShaped st =
     (rows (m_approx st) = rows (m_v st) \<and> cols (m_approx st) = cols (m_v st)
      \<and> cols (m_h st) = cols (m_v st)
      \<and> length (m_w st) = m_t st
      \<and> (\<forall>p<m_t st. rows (m_w st ! p) = rows (m_v st) \<and> cols (m_w st ! p) = rows (m_h st))
      \<and> m_t st \<le> cols (m_v st)
      \<and> length (m_wColConstant st) = rows (m_h st))"

section \<open>Counting loops\<close>

lemma forUpTo_0 [simp]: "forUpTo 0 body x = x"
  by (simp add: forUpTo_def)

lemma forUpTo_Suc [simp]: "forUpTo (Suc n) body x = body n (forUpTo n body x)"
  by (simp add: forUpTo_def)

lemma forUpTo_fill_length [simp]: "length (forUpTo n (\<lambda>c l. l[c := a]) xs) = length xs"
  by (induction n) simp_all

lemma forUpTo_fill_nth:
  "i < length xs \<Longrightarrow> forUpTo n (\<lambda>c l. l[c := a]) xs ! i = (if i < n then a else xs ! i)"
  by (induction n) (auto simp: nth_list_update less_Suc_eq)

section \<open>Construction\<close>

lemma generateW_fields:
  "m_s (generateW g st) = m_s st" "m_c (generateW g st) = m_c st"
  "m_wConstant (generateW g st) = m_wConstant st"
  "m_wColConstant (generateW g st) = m_wColConstant st"
  "m_absoluteError (generateW g st) = m_absoluteError st"
  "m_relativeError (generateW g st) = m_relativeError st"
  "m_approx (generateW g st) = m_approx st"
  "m_notificationDelay (generateW g st) = m_notificationDelay st"
  by (simp_all add: generateW_def Let_def)

text \<open>
  Claim C10.  Immediately after a successful construction, for every shape of \<open>v\<close> and
  every rank \<open>r\<close>: the sparsity weights \<open>m_s\<close> and the continuity weights \<open>m_c\<close> are
  \<open>r\<close>-by-\<open>cols v\<close> matrices of zeros, \<open>m_wConstant\<close> is false, each of the \<open>r\<close> column
  flags is false, the absolute and the relative error are both -1, the reconstruction
  \<open>m_approx\<close> is a matrix of zeros of the shape of \<open>v\<close>, and the notification delay is 25.
  Construction succeeds whenever \<open>t\<close> does not exceed the number of columns of \<open>v\<close>.
\<close>
theorem construction_defaults:
  assumes "t \<le> cols v"
  shows "\<exists>st. Deconvolver v r t wGenerator hGenerator = Inr st
     \<and> rows (m_s st) = r \<and> cols (m_s st) = cols v
     \<and> rows (m_c st) = r \<and> cols (m_c st) = cols v
     \<and> (\<forall>i<r. \<forall>j<cols v. atM (m_s st) i j = 0 \<and> atM (m_c st) i j = 0)
     \<and> \<not> m_wConstant st
     \<and> length (m_wColConstant st) = r \<and> (\<forall>j<r. \<not> m_wColConstant st ! j)
     \<and> m_absoluteError st = - 1 \<and> m_relativeError st = - 1
     \<and> rows (m_approx st) = rows v \<and> cols (m_approx st) = cols v
     \<and> (\<forall>i<rows v. \<forall>j<cols v. atM (m_approx st) i j = 0)
     \<and> m_notificationDelay st = 25"
  using assms
  by (simp add: Deconvolver_def Let_def generateW_fields forUpTo_fill_nth Matrix_gen_def zero_gen_def)

theorem construction_defaults_witness:
  "(1::nat) \<le> cols (Matrix_gen 1 1 (\<lambda>i j. 2)) \<and>
   (\<exists>st. Deconvolver (Matrix_gen 1 1 (\<lambda>i j. 2)) 1 1 (\<lambda>i j. 1) (\<lambda>i j. 1) = Inr st
      \<and> atM (m_s st) 0 0 = 0 \<and> atM (m_c st) 0 0 = 0 \<and> \<not> m_wConstant st
      \<and> \<not> m_wColConstant st ! 0 \<and> m_absoluteError st = - 1 \<and> m_relativeError st = - 1
      \<and> atM (m_approx st) 0 0 = 0 \<and> m_notificationDelay st = 25)"
proof -
  have "(1::nat) \<le> cols (Matrix_gen 1 1 (\<lambda>i j. 2))" by (simp add: Matrix_gen_def)
  from construction_defaults [OF this, of 1 "\<lambda>i j. 1" "\<lambda>i j. 1"]
  show ?thesis by (auto simp: Matrix_gen_def)
qed


section \<open>Rounding\<close>

text \<open>Rounding to an integer is monotone and leaves integers as they are.\<close>

lemma roundHalfEven_of_int [simp]: "roundHalfEven (of_int n) = n"
  by (simp add: roundHalfEven_def)

lemma roundHalfEven_bounds: "\<lfloor>x\<rfloor> \<le> roundHalfEven x" "roundHalfEven x \<le> \<lfloor>x\<rfloor> + 1"
  by (simp_all add: roundHalfEven_def Let_def)

lemma roundHalfEven_mono:
  assumes "x \<le> y" shows "roundHalfEven x \<le> roundHalfEven y"
proof (cases "\<lfloor>x\<rfloor> = \<lfloor>y\<rfloor>")
  case True
  with assms show ?thesis
    by (auto simp: roundHalfEven_def Let_def)
next
  case False
  with assms have "\<lfloor>x\<rfloor> + 1 \<le> \<lfloor>y\<rfloor>"
    using floor_mono [OF assms] by linarith
  with roundHalfEven_bounds(2) [of x] roundHalfEven_bounds(1) [of y] show ?thesis by linarith
qed

lemma roundHalfEven_le: "x \<le> of_int n \<Longrightarrow> roundHalfEven x \<le> n"
  using roundHalfEven_mono [of x "of_int n"] by simp

lemma roundHalfEven_ge: "of_int n \<le> x \<Longrightarrow> n \<le> roundHalfEven x"
  using roundHalfEven_mono [of "of_int n" x] by simp

lemma binade:
  fixes x :: real
  assumes "0 < x"
  shows "2 powr of_int \<lfloor>log 2 x\<rfloor> \<le> x" "x < 2 powr of_int (\<lfloor>log 2 x\<rfloor> + 1)"
proof -
  have x: "2 powr log 2 x = x" using assms by simp
  have "(2::real) powr of_int \<lfloor>log 2 x\<rfloor> \<le> 2 powr log 2 x"
    by (rule powr_mono) simp_all
  then show "2 powr of_int \<lfloor>log 2 x\<rfloor> \<le> x" by (simp only: x)
  have "log 2 x < of_int (\<lfloor>log 2 x\<rfloor> + 1)" by linarith
  then have "(2::real) powr log 2 x < 2 powr of_int (\<lfloor>log 2 x\<rfloor> + 1)"
    by (rule powr_less_mono) simp
  then show "x < 2 powr of_int (\<lfloor>log 2 x\<rfloor> + 1)" by (simp only: x)
qed

lemma two_powr_int_add: "(2::real) powr of_int a * 2 powr of_int b = 2 powr of_int (a + b)"
  by (simp add: powr_add)

lemma two_powr_int_nat: "(2::real) powr of_int (int n) = of_int (2 ^ n)"
  by (simp add: powr_realpow)

lemma ulp_pos [simp]: "0 < ulp p emin x"
  by (simp add: ulp_def)

lemma ulp_top:
  "ulp p emin x * of_int (2 ^ p) = 2 powr of_int (max \<lfloor>log 2 \<bar>x\<bar>\<rfloor> emin + 1)"
  unfolding ulp_def two_powr_int_nat [symmetric] two_powr_int_add
  by (rule arg_cong [where f = "\<lambda>k. 2 powr of_int k"]) simp

lemma ulp_bottom:
  "0 < p \<Longrightarrow> ulp p emin x * of_int (2 ^ (p - 1)) = 2 powr of_int (max \<lfloor>log 2 \<bar>x\<bar>\<rfloor> emin)"
  unfolding ulp_def two_powr_int_nat [symmetric] two_powr_int_add
  by (rule arg_cong [where f = "\<lambda>k. 2 powr of_int k"]) simp

text \<open>Rounding to a format with \<open>p\<close> significant bits stays within the binade of its
  argument, is monotone on the positive numbers, and leaves the numbers of the format
  as they are.\<close>

lemma roundToNearest_upper:
  assumes "0 < x"
  shows "roundToNearest p emin x \<le> 2 powr of_int (max \<lfloor>log 2 x\<rfloor> emin + 1)"
proof -
  define u where "u = ulp p emin x"
  have u: "0 < u" by (simp add: u_def)
  have t: "u * of_int (2 ^ p) = 2 powr of_int (max \<lfloor>log 2 x\<rfloor> emin + 1)"
    using ulp_top [of p emin x] assms by (simp add: u_def)
  have "x < 2 powr of_int (\<lfloor>log 2 x\<rfloor> + 1)" using binade(2) [OF assms(1)] .
  also have "\<dots> \<le> 2 powr of_int (max \<lfloor>log 2 x\<rfloor> emin + 1)" by simp
  also have "\<dots> = u * of_int (2 ^ p)" using t by simp
  finally have "x \<le> u * of_int (2 ^ p)" by simp
  then have "x / u \<le> of_int (2 ^ p)"
    using u by (simp only: pos_divide_le_eq mult.commute)
  then have "roundHalfEven (x / u) \<le> 2 ^ p" by (rule roundHalfEven_le)
  then have "of_int (roundHalfEven (x / u)) \<le> (of_int (2 ^ p) :: real)"
    by (simp only: of_int_le_iff)
  then have "u * of_int (roundHalfEven (x / u)) \<le> u * of_int (2 ^ p)"
    using u by (simp only: mult_le_cancel_left_pos)
  then have "u * of_int (roundHalfEven (x / u)) \<le> 2 powr of_int (max \<lfloor>log 2 x\<rfloor> emin + 1)"
    by (simp only: t)
  moreover have "roundToNearest p emin x = u * of_int (roundHalfEven (x / u))"
    using assms by (simp add: roundToNearest_def u_def)
  ultimately show ?thesis by (simp only:)
qed

lemma roundToNearest_lower:
  assumes "0 < x" "0 < p" "emin \<le> \<lfloor>log 2 x\<rfloor>"
  shows "2 powr of_int \<lfloor>log 2 x\<rfloor> \<le> roundToNearest p emin x"
proof -
  define u where "u = ulp p emin x"
  have u: "0 < u" by (simp add: u_def)
  have m: "max \<lfloor>log 2 x\<rfloor> emin = \<lfloor>log 2 x\<rfloor>" using assms(3) by simp
  have t: "u * of_int (2 ^ (p - 1)) = 2 powr of_int \<lfloor>log 2 x\<rfloor>"
    using ulp_bottom [OF assms(2), of emin x] assms(1) by (simp add: u_def m)
  have "u * of_int (2 ^ (p - 1)) \<le> x"
    unfolding t using binade(1) [OF assms(1)] .
  then have "of_int (2 ^ (p - 1)) \<le> x / u"
    using u by (simp only: pos_le_divide_eq mult.commute)
  then have "2 ^ (p - 1) \<le> roundHalfEven (x / u)" by (rule roundHalfEven_ge)
  then have "(of_int (2 ^ (p - 1)) :: real) \<le> of_int (roundHalfEven (x / u))"
    by (simp only: of_int_le_iff)
  then have "u * of_int (2 ^ (p - 1)) \<le> u * of_int (roundHalfEven (x / u))"
    using u by (simp only: mult_le_cancel_left_pos)
  then have "2 powr of_int \<lfloor>log 2 x\<rfloor> \<le> u * of_int (roundHalfEven (x / u))"
    by (simp only: t)
  moreover have "roundToNearest p emin x = u * of_int (roundHalfEven (x / u))"
    using assms by (simp add: roundToNearest_def u_def)
  ultimately show ?thesis by (simp only:)
qed

lemma roundToNearest_mono:
  assumes "0 < x" "x \<le> y" "0 < p"
  shows "roundToNearest p emin x \<le> roundToNearest p emin y"
proof -
  have y: "0 < y" using assms by simp
  define ex where "ex = max \<lfloor>log 2 x\<rfloor> emin"
  define ey where "ey = max \<lfloor>log 2 y\<rfloor> emin"
  have "log 2 x \<le> log 2 y" using assms by simp
  then have "\<lfloor>log 2 x\<rfloor> \<le> \<lfloor>log 2 y\<rfloor>" by (rule floor_mono)
  then have le: "ex \<le> ey" unfolding ex_def ey_def by simp
  show ?thesis
  proof (cases "ex = ey")
    case True
    then have uu: "ulp p emin y = ulp p emin x"
      using assms(1) y by (simp add: ulp_def ex_def ey_def)
    define u where "u = ulp p emin x"
    have u: "0 < u" by (simp add: u_def)
    then have "x / u \<le> y / u" using assms(2) by (simp add: divide_right_mono)
    then have "roundHalfEven (x / u) \<le> roundHalfEven (y / u)" by (rule roundHalfEven_mono)
    then have "u * of_int (roundHalfEven (x / u)) \<le> u * of_int (roundHalfEven (y / u))"
      using u by simp
    then show ?thesis
      using assms(1) y by (simp add: roundToNearest_def uu u_def [symmetric])
  next
    case False
    with le have lt: "ex + 1 \<le> ey" by simp
    then have ey: "ey = \<lfloor>log 2 y\<rfloor>" "emin \<le> \<lfloor>log 2 y\<rfloor>"
      unfolding ex_def ey_def by linarith+
    have "roundToNearest p emin x \<le> 2 powr of_int (ex + 1)"
      using roundToNearest_upper [OF assms(1)] by (simp add: ex_def)
    also have "\<dots> \<le> 2 powr of_int ey" using lt by simp
    also have "\<dots> \<le> roundToNearest p emin y"
      using roundToNearest_lower [OF y assms(3) ey(2)] by (simp add: ey(1))
    finally show ?thesis .
  qed
qed

lemma roundToNearest_exact:
  assumes "x \<noteq> 0" "x / ulp p emin x = of_int m"
  shows "roundToNearest p emin x = x"
  using assms by (simp add: roundToNearest_def) (metis nonzero_mult_div_cancel_left mult.commute ulp_pos less_irrefl times_divide_eq_right)

lemma roundToNearest_one:
  assumes "0 < p" "emin \<le> 0"
  shows "roundToNearest p emin 1 = 1"
proof -
  define u where "u = ulp p emin 1"
  have u: "0 < u" by (simp add: u_def)
  have h: "u * of_int (2 ^ (p - 1)) = 1"
    using ulp_bottom [OF assms(1), of emin 1] assms(2) by (simp add: u_def)
  have "1 / u = (u * of_int (2 ^ (p - 1))) / u" by (simp only: h)
  also have "\<dots> = of_int (2 ^ (p - 1))" using u by simp
  finally show ?thesis unfolding u_def by (intro roundToNearest_exact) simp_all
qed

lemma roundToNearest_nonneg:
  assumes "0 \<le> x" shows "0 \<le> roundToNearest p emin x"
proof (cases "x = 0")
  case True then show ?thesis by (simp add: roundToNearest_def)
next
  case False
  have "of_int 0 \<le> x / ulp p emin x"
    using assms ulp_pos [of p emin x] by (simp add: less_imp_le)
  then have "0 \<le> roundHalfEven (x / ulp p emin x)" by (rule roundHalfEven_ge)
  then have "0 \<le> ulp p emin x * of_int (roundHalfEven (x / ulp p emin x))"
    by (intro mult_nonneg_nonneg) (simp_all add: less_imp_le)
  then show ?thesis using False by (simp add: roundToNearest_def)
qed

lemma roundToNearest_mono0:
  assumes "0 \<le> x" "x \<le> y" "0 < p"
  shows "roundToNearest p emin x \<le> roundToNearest p emin y"
proof (cases "x = 0")
  case True
  have "0 \<le> roundToNearest p emin y" using assms by (intro roundToNearest_nonneg) simp
  with True show ?thesis by (simp add: roundToNearest_def)
next
  case False
  with assms show ?thesis by (intro roundToNearest_mono) simp_all
qed

lemma roundToNearest_nat:
  assumes "0 < p" "emin \<le> 0" "n \<le> 2 ^ p"
  shows "roundToNearest p emin (real n) = real n"
proof (cases "n = 0")
  case True then show ?thesis by (simp add: roundToNearest_def)
next
  case False
  then have n: "0 < real n" "1 \<le> real n" by simp_all
  define e where "e = \<lfloor>log 2 (real n)\<rfloor>"
  have "0 \<le> log 2 (real n)" using n(2) by simp
  then have e0: "0 \<le> e" unfolding e_def by simp
  have lo: "2 powr of_int e \<le> real n" unfolding e_def using binade(1) [OF n(1)] .
  have "real n \<le> 2 ^ p" using assms(3) by (metis of_nat_le_iff of_nat_numeral of_nat_power)
  also have "\<dots> = 2 powr of_int (int p)" by (simp add: powr_realpow)
  finally have hi: "real n \<le> 2 powr of_int (int p)" .
  from lo hi have "(2::real) powr of_int e \<le> 2 powr of_int (int p)" by (rule order_trans)
  then have ep: "e \<le> int p" by simp
  have "max e emin = e" using e0 assms(2) by simp
  then have u: "ulp p emin (real n) = 2 powr of_int (e - int p + 1)"
    by (simp add: ulp_def e_def [symmetric])
  have d: "real n / 2 powr of_int (e - int p + 1) = real n * 2 powr of_int (int p - 1 - e)"
    by (simp add: powr_diff powr_add field_simps)
  have q: "real n / ulp p emin (real n) = real n * 2 powr of_int (int p - 1 - e)"
    by (simp only: u d)
  show ?thesis
  proof (cases "e = int p")
    case True
    with lo hi have np: "real n = 2 powr of_int (int p)" by simp
    note q
    also have "real n * 2 powr of_int (int p - 1 - e)
                 = 2 powr of_int (int p) * 2 powr of_int (int p - 1 - e)"
      by (simp only: np)
    also have "\<dots> = 2 powr of_int (int (p - 1))"
      unfolding two_powr_int_add True
      by (rule arg_cong [where f = "\<lambda>k. 2 powr of_int k"]) (use assms(1) in simp)
    also have "\<dots> = of_int (2 ^ (p - 1))" by (rule two_powr_int_nat)
    finally have f: "real n / ulp p emin (real n) = of_int (2 ^ (p - 1))" .
    show ?thesis by (rule roundToNearest_exact [OF _ f]) (use n(1) in simp)
  next
    case False
    with ep have "0 \<le> int p - 1 - e" by simp
    then obtain k where k: "int p - 1 - e = int k" using nonneg_int_cases by blast
    have "real n / ulp p emin (real n) = real n * 2 powr of_int (int k)"
      by (simp only: q k)
    also have "\<dots> = of_int (int n) * of_int (2 ^ k)" by (simp add: powr_realpow)
    also have "\<dots> = of_int (int n * 2 ^ k)" by (simp only: of_int_mult)
    finally have f: "real n / ulp p emin (real n) = of_int (int n * 2 ^ k)" .
    show ?thesis by (rule roundToNearest_exact [OF _ f]) (use n(1) in simp)
  qed
qed

lemma toFloat_one [simp]: "toFloat 1 = 1"
  by (simp add: toFloat_def roundToNearest_one)

lemma toDouble_one [simp]: "toDouble 1 = 1"
  by (simp add: toDouble_def roundToNearest_one)

lemma toFloat_mono: "0 \<le> x \<Longrightarrow> x \<le> y \<Longrightarrow> toFloat x \<le> toFloat y"
  unfolding toFloat_def by (rule roundToNearest_mono0) simp_all

lemma toFloat_nat_ge_1: "0 < n \<Longrightarrow> 1 \<le> toFloat (real n)"
  using toFloat_mono [of 1 "real n"] by simp

lemma toFloat_nat_exact: "n \<le> 2 ^ 24 \<Longrightarrow> toFloat (real n) = real n"
  unfolding toFloat_def by (rule roundToNearest_nat) simp_all

lemma floatFraction_mono:
  assumes "0 < m" "k \<le> k'"
  shows "floatFraction k m \<le> floatFraction k' m"
proof -
  have m: "1 \<le> toFloat (real m)" using assms(1) by (rule toFloat_nat_ge_1)
  have k0: "0 \<le> toFloat (real k)" unfolding toFloat_def by (rule roundToNearest_nonneg) simp
  have kk: "toFloat (real k) \<le> toFloat (real k')" using assms(2) by (intro toFloat_mono) simp_all
  have "toFloat (real k) / toFloat (real m) \<le> toFloat (real k') / toFloat (real m)"
    using kk m by (intro divide_right_mono) simp_all
  moreover have "0 \<le> toFloat (real k) / toFloat (real m)" using k0 m by simp
  ultimately have "toFloat (toFloat (real k) / toFloat (real m)) \<le> toFloat (toFloat (real k') / toFloat (real m))"
    by (intro toFloat_mono)
  then show ?thesis using m by (simp add: floatFraction_def ieeeQuotient_def)
qed

lemma floatFraction_self: "0 < m \<Longrightarrow> floatFraction m m = 1"
  using toFloat_nat_ge_1 [of m] by (simp add: floatFraction_def ieeeQuotient_def)

lemma floatFraction_le_1: "0 < k \<Longrightarrow> k \<le> m \<Longrightarrow> floatFraction k m \<le> 1"
  using floatFraction_mono [of m k m] floatFraction_self [of m] by simp

text \<open>The fraction passed to the observer.  Up to \<open>2 ^ 24\<close> steps the conversions of
  the counters are exact, and the fraction is 1 only for the last step.  The counter
  \<open>2 ^ 24 + 1\<close> is converted to \<open>2 ^ 24\<close>, and the fraction of the step before the last
  one is 1 already.\<close>

lemma ulp_eq:
  assumes "2 powr of_int e \<le> \<bar>x\<bar>" "\<bar>x\<bar> < 2 powr of_int (e + 1)" "emin \<le> e"
  shows "ulp p emin x = 2 powr of_int (e - int p + 1)"
proof -
  have "0 < \<bar>x\<bar>" using assms(1) by (rule less_le_trans [rotated]) simp
  then have "\<lfloor>log 2 \<bar>x\<bar>\<rfloor> = e"
    using assms(1,2) by (subst floor_log_eq_powr_iff) simp_all
  then show ?thesis using assms(3) by (simp add: ulp_def)
qed

lemma toFloat_below_one: "toFloat (1 - 1 / 2 ^ 24) = 1 - 1 / 2 ^ 24"
proof -
  have u: "ulp 24 (- 126) (1 - 1 / 2 ^ 24) = 2 powr of_int (- 24)"
    using ulp_eq [of "- 1" "1 - 1 / 2 ^ 24" "- 126" 24] by (simp add: powr_minus)
  have "(1 - 1 / 2 ^ 24) / ulp 24 (- 126) (1 - 1 / 2 ^ 24) = of_int 16777215"
    unfolding u by (simp add: powr_minus)
  then show ?thesis unfolding toFloat_def by (rule roundToNearest_exact [rotated]) simp
qed

lemma floatFraction_less_1:
  assumes "k < m" "m \<le> 2 ^ 24"
  shows "floatFraction k m < 1"
proof -
  have m: "0 < real m" using assms(1) by simp
  have "real m \<le> real (2 ^ 24)" using assms(2) by (simp only: of_nat_le_iff)
  then have m2: "real m \<le> 2 ^ 24" by simp
  have "real (Suc k) \<le> real m" using assms(1) by (simp only: of_nat_le_iff Suc_le_eq)
  then have "real k \<le> real m - 1" by simp
  then have "real k / real m \<le> (real m - 1) / real m" using m by (simp add: divide_right_mono)
  also have "\<dots> = 1 - 1 / real m" using m by (simp add: diff_divide_distrib)
  also have "\<dots> \<le> 1 - 1 / 2 ^ 24"
    using m m2 by (simp add: frac_le)
  finally have "toFloat (real k / real m) \<le> toFloat (1 - 1 / 2 ^ 24)"
    by (intro toFloat_mono) simp_all
  then have "toFloat (real k / real m) \<le> 1 - 1 / 2 ^ 24" by (simp only: toFloat_below_one)
  then have "toFloat (real k / real m) < 1" by simp
  moreover have "toFloat (real k) = real k" "toFloat (real m) = real m"
    using assms by (simp_all add: toFloat_nat_exact)
  ultimately show ?thesis using m by (simp add: floatFraction_def ieeeQuotient_def)
qed

lemma floatFraction_eq_1_iff:
  assumes "0 < m" "k \<le> m" "m \<le> 2 ^ 24"
  shows "floatFraction k m = 1 \<longleftrightarrow> k = m"
  using floatFraction_less_1 [of k m] floatFraction_self [of m] assms by (cases "k = m") auto

lemma toFloat_tie: "toFloat (real (2 ^ 24 + 1)) = 2 ^ 24"
proof -
  have u: "ulp 24 (- 126) 16777217 = 2"
    using ulp_eq [of 24 16777217 "- 126" 24] by (simp add: powr_realpow [of 2 24, simplified] )
  show ?thesis
    by (simp add: toFloat_def roundToNearest_def u roundHalfEven_def Let_def)
qed

lemma floatFraction_rounds_to_1: "floatFraction (2 ^ 24) (2 ^ 24 + 1) = 1"
proof -
  have "toFloat (real (2 ^ 24)) = 2 ^ 24" using toFloat_nat_exact [of "2 ^ 24"] by simp
  then show ?thesis
    unfolding floatFraction_def toFloat_tie by (simp add: ieeeQuotient_def)
qed

lemma toDouble_tenth: "1 / 10 < toDouble (1 / 10)"
proof -
  have u: "ulp 53 (- 1022) (1 / 10) = 2 powr of_int (- 56)"
    using ulp_eq [of "- 4" "1 / 10" "- 1022" 53] by (simp add: powr_minus)
  have f: "\<lfloor>(72057594037927936::real) / 10\<rfloor> = 7205759403792793" by simp
  show ?thesis
    by (simp add: toDouble_def roundToNearest_def u roundHalfEven_def Let_def powr_minus f)
qed


section \<open>The convergence monitor\<close>

lemma computeApprox_oldApprox [simp]: "m_oldApprox (computeApprox st) = m_oldApprox st"
  by (simp add: computeApprox_def Let_def split: prod.splits)

text \<open>
  The rounding of the quotient decides the test: for the norms 1 and 10 and \<open>eps\<close> the
  \<^verbatim>\<open>double\<close> nearest to one tenth, which is above one tenth, the exact quotient is below
  \<open>eps\<close> and the rounded one is not.
\<close>
lemma quotientBelow_rounded:
  "\<not> quotientBelow 1 10 (toDouble (1 / 10)) \<and> 1 / 10 < toDouble (1 / 10)"
  using toDouble_tenth by (simp add: quotientBelow_def Let_def)




section \<open>Errors\<close>

text \<open>
  Claim C6.  Construction throws exactly when \<open>t\<close> exceeds the number of columns of \<open>v\<close>,
  and the error is of the kind InvalidArgument.  \<open>decompose\<close> throws an error of the
  kind Unsupported exactly when the cost function is one of EuclideanDistanceSparse,
  KLDivergenceSparse, KLDivergenceContinuous and EuclideanDistanceSparseNormalized and
  \<open>m_t\<close> exceeds 1; it throws an error of the kind InvalidArgument exactly when the cost
  function is none of the six enumerators.  Whenever \<open>decompose\<close> throws, the engine
  (with its matrices and its step counter) and the observer are as they were before the
  call.
\<close>
theorem error_conditions:
  "isl (Deconvolver v r t wGenerator hGenerator) = (cols v < t)
   \<and> (\<exists>e. Deconvolver v r t wGenerator hGenerator = Inl e \<and> kindOf e = Some InvalidArgument)
       = (cols v < t)
   \<and> (\<exists>e. fst (decompose cf maxSteps eps observer st) = Some e \<and> kindOf e = Some Unsupported)
       = (cf \<in> {EuclideanDistanceSparse, KLDivergenceSparse, KLDivergenceContinuous,
                 EuclideanDistanceSparseNormalized} \<and> 1 < m_t st)
   \<and> (\<exists>e. fst (decompose cf maxSteps eps observer st) = Some e \<and> kindOf e = Some InvalidArgument)
       = (\<exists>n. cf = OtherCostFunction n)
   \<and> (fst (decompose cf maxSteps eps observer st) \<noteq> None
        \<longrightarrow> snd (decompose cf maxSteps eps observer st) = (st, observer))"
proof -
  have c: "isl (Deconvolver v r t wGenerator hGenerator) = (cols v < t)"
    "(\<exists>e. Deconvolver v r t wGenerator hGenerator = Inl e \<and> kindOf e = Some InvalidArgument)
       = (cols v < t)"
    by (simp_all add: Deconvolver_def Let_def kindOf_def)
  have d: "(\<exists>e. fst (decompose cf maxSteps eps observer st) = Some e \<and> kindOf e = Some Unsupported)
       = (cf \<in> {EuclideanDistanceSparse, KLDivergenceSparse, KLDivergenceContinuous,
                 EuclideanDistanceSparseNormalized} \<and> 1 < m_t st)"
    by (cases cf) (simp_all add: decompose_def Let_def kindOf_def split: prod.splits)
  have e: "(\<exists>e. fst (decompose cf maxSteps eps observer st) = Some e \<and> kindOf e = Some InvalidArgument)
       = (\<exists>n. cf = OtherCostFunction n)"
    by (cases cf) (simp_all add: decompose_def Let_def kindOf_def split: prod.splits)
  have f: "fst (decompose cf maxSteps eps observer st) \<noteq> None
        \<longrightarrow> snd (decompose cf maxSteps eps observer st) = (st, observer)"
    by (cases cf) (simp_all add: decompose_def Let_def split: prod.splits)
  from c d e f show ?thesis by blast
qed

theorem error_conditions_witness:
  "fst (decompose KLDivergenceSparse 5 0 None (exampleEngine (mat [[1, 1]]) [mat [[1]], mat [[1]]] (mat [[1, 1]]))) \<noteq> None
   \<and> snd (decompose KLDivergenceSparse 5 0 None (exampleEngine (mat [[1, 1]]) [mat [[1]], mat [[1]]] (mat [[1, 1]])))
       = (exampleEngine (mat [[1, 1]]) [mat [[1]], mat [[1]]] (mat [[1, 1]]), None)"
proof -
  let ?st = "exampleEngine (mat [[1, 1]]) [mat [[1]], mat [[1]]] (mat [[1, 1]])"
  note E = error_conditions [of "mat [[1, 1]]" 1 2 "\<lambda>i j. 1" "\<lambda>i j. 1" KLDivergenceSparse 5 0 None ?st]
  have "1 < m_t ?st" by (simp add: exampleEngine_def)
  with E have "\<exists>e. fst (decompose KLDivergenceSparse 5 0 None ?st) = Some e \<and> kindOf e = Some Unsupported"
    by blast
  then have "fst (decompose KLDivergenceSparse 5 0 None ?st) \<noteq> None" by auto
  with E show ?thesis by blast
qed



section \<open>The shifted-convolution kernel\<close>

lemma setAt_simps [simp]:
  "rows (setAt m i j x) = rows m" "cols (setAt m i j x) = cols m"
  "atM (setAt m i j x) i' j' = (if i' = i \<and> j' = j then x else atM m i' j')"
  by (simp_all add: setAt_def)

lemma forUpTo_column:
  "rows (forUpTo n (\<lambda>i m. setAt m i j (g i (atM m i j))) m) = rows m"
  "cols (forUpTo n (\<lambda>i m. setAt m i j (g i (atM m i j))) m) = cols m"
  "atM (forUpTo n (\<lambda>i m. setAt m i j (g i (atM m i j))) m) i' j'
     = (if j' = j \<and> i' < n then g i' (atM m i' j') else atM m i' j')"
  by (induction n) (auto simp: less_Suc_eq)

lemma forUpTo_columns_dims:
  "rows (forUpTo c (\<lambda>j m. forUpTo (rows m) (\<lambda>i m. setAt m i j (g i j (atM m i j))) m) m) = rows m
   \<and> cols (forUpTo c (\<lambda>j m. forUpTo (rows m) (\<lambda>i m. setAt m i j (g i j (atM m i j))) m) m) = cols m"
proof (induction c)
  case 0 show ?case by simp
next
  case (Suc c)
  show ?case
    using Suc forUpTo_column(1,2) [where g = "\<lambda>i. g i c" and j = c]
    by simp
qed

lemma forUpTo_columns:
  "rows (forUpTo c (\<lambda>j m. forUpTo (rows m) (\<lambda>i m. setAt m i j (g i j (atM m i j))) m) m) = rows m"
  "cols (forUpTo c (\<lambda>j m. forUpTo (rows m) (\<lambda>i m. setAt m i j (g i j (atM m i j))) m) m) = cols m"
  "atM (forUpTo c (\<lambda>j m. forUpTo (rows m) (\<lambda>i m. setAt m i j (g i j (atM m i j))) m) m) i' j'
     = (if j' < c \<and> i' < rows m then g i' j' (atM m i' j') else atM m i' j')"
proof -
  show "rows (forUpTo c (\<lambda>j m. forUpTo (rows m) (\<lambda>i m. setAt m i j (g i j (atM m i j))) m) m) = rows m"
    "cols (forUpTo c (\<lambda>j m. forUpTo (rows m) (\<lambda>i m. setAt m i j (g i j (atM m i j))) m) m) = cols m"
    using forUpTo_columns_dims [of c g m] by simp_all
  show "atM (forUpTo c (\<lambda>j m. forUpTo (rows m) (\<lambda>i m. setAt m i j (g i j (atM m i j))) m) m) i' j'
     = (if j' < c \<and> i' < rows m then g i' j' (atM m i' j') else atM m i' j')"
  proof (induction c arbitrary: i' j')
    case 0 show ?case by simp
  next
    case (Suc c)
    show ?case
      using Suc forUpTo_column(3) [where g = "\<lambda>i. g i c" and j = c] forUpTo_columns_dims [of c g m]
      by (auto simp: less_Suc_eq)
  qed
qed

lemma usub_le [simp]: "b \<le> a \<Longrightarrow> usub a b = a - b"
  by (simp add: usub_def)

lemma computeWpH_dims [simp]:
  "rows (computeWpH st p out) = rows out" "cols (computeWpH st p out) = cols out"
  by (simp_all add: computeWpH_def Let_def multWithMatrixSub_def forUpTo_columns [where g = "\<lambda>i j x. 0"])

lemma computeWpH_at:
  assumes "p \<le> cols (m_h st)" "rows out = rows (m_w st ! p)" "i < rows out" "j < cols (m_h st)"
  shows "atM (computeWpH st p out) i j =
           (if j < p then 0
            else (\<Sum>l<cols (m_w st ! p). atM (m_w st ! p) i l * atM (m_h st) l (j - p)))"
  using assms
  by (auto simp: computeWpH_def Let_def multWithMatrixSub_def forUpTo_columns [where g = "\<lambda>i j x. 0"])


lemma addM_simps [simp]:
  "rows (addM m other) = rows m" "cols (addM m other) = cols m"
  "atM (addM m other) i j = (if i < rows m \<and> j < cols m then atM m i j + atM other i j else atM m i j)"
  by (simp_all add: addM_def)

lemma zeroM_simps [simp]:
  "rows (zeroM m) = rows m" "cols (zeroM m) = cols m"
  "atM (zeroM m) i j = (if i < rows m \<and> j < cols m then 0 else atM m i j)"
  by (simp_all add: zeroM_def)

lemma computeWpH_at_wellShaped:
  assumes "wellShaped st" "p < m_t st" "rows out = rows (m_v st)"
          "i < rows (m_v st)" "j < cols (m_v st)"
  shows "atM (computeWpH st p out) i j =
           (if j < p then 0
            else (\<Sum>l<rows (m_h st). atM (m_w st ! p) i l * atM (m_h st) l (j - p)))"
  using assms computeWpH_at [of p st out i j] by (simp add: wellShaped_def)

lemma computeApprox_fold:
  assumes "wellShaped st" "n \<le> m_t st" "rows wpH = rows (m_v st)" "rows out = rows (m_v st)"
          "rows a = rows (m_v st)" "cols a = cols (m_v st)"
  shows "rows (fst (forUpTo n (\<lambda>p (wpH, approx).
                 (let wpH = computeWpH st p wpH in (wpH, addM approx wpH))) (wpH, a))) = rows (m_v st)
       \<and> rows (snd (forUpTo n (\<lambda>p (wpH, approx).
                 (let wpH = computeWpH st p wpH in (wpH, addM approx wpH))) (wpH, a))) = rows (m_v st)
       \<and> cols (snd (forUpTo n (\<lambda>p (wpH, approx).
                 (let wpH = computeWpH st p wpH in (wpH, addM approx wpH))) (wpH, a))) = cols (m_v st)
       \<and> (\<forall>i<rows (m_v st). \<forall>j<cols (m_v st).
            atM (snd (forUpTo n (\<lambda>p (wpH, approx).
                 (let wpH = computeWpH st p wpH in (wpH, addM approx wpH))) (wpH, a))) i j
            = atM a i j + (\<Sum>p<n. atM (computeWpH st p out) i j))"
  using assms(2)
proof (induction n)
  case 0
  show ?case using assms by simp
next
  case (Suc n)
  then have IH: "rows (fst (forUpTo n (\<lambda>p (wpH, approx).
                 (let wpH = computeWpH st p wpH in (wpH, addM approx wpH))) (wpH, a))) = rows (m_v st)"
     "rows (snd (forUpTo n (\<lambda>p (wpH, approx).
                 (let wpH = computeWpH st p wpH in (wpH, addM approx wpH))) (wpH, a))) = rows (m_v st)"
     "cols (snd (forUpTo n (\<lambda>p (wpH, approx).
                 (let wpH = computeWpH st p wpH in (wpH, addM approx wpH))) (wpH, a))) = cols (m_v st)"
     "\<And>i j. i < rows (m_v st) \<Longrightarrow> j < cols (m_v st) \<Longrightarrow>
            atM (snd (forUpTo n (\<lambda>p (wpH, approx).
                 (let wpH = computeWpH st p wpH in (wpH, addM approx wpH))) (wpH, a))) i j
            = atM a i j + (\<Sum>p<n. atM (computeWpH st p out) i j)"
    by simp_all
  have n: "n < m_t st" using Suc.prems by simp
  have same: "atM (computeWpH st n x) i j = atM (computeWpH st n out) i j"
    if "rows x = rows (m_v st)" "i < rows (m_v st)" "j < cols (m_v st)" for x i j
    using that computeWpH_at_wellShaped [OF assms(1) n, of x i j]
          computeWpH_at_wellShaped [OF assms(1) n assms(4), of i j]
    by simp
  show ?case
    using IH same by (simp add: case_prod_unfold Let_def)
qed


text \<open>
  Claim C5.  In a well-shaped engine, for \<open>p < m_t\<close> and an M-by-N matrix \<open>out\<close>,
  \<open>computeWpH st p out\<close> is M-by-N, its columns before column \<open>p\<close> are zero, and its
  column \<open>j \<ge> p\<close> is the product of \<open>m_w ! p\<close> with column \<open>j - p\<close> of \<open>m_h\<close>.
  \<open>computeApprox\<close> makes the reconstruction the product of \<open>m_w ! 0\<close> and \<open>m_h\<close> when
  \<open>m_t = 1\<close>, and the sum over \<open>p < m_t\<close> of the matrices \<open>computeWpH st p out\<close> otherwise.
\<close>
theorem shifted_convolution_kernel:
  assumes "wellShaped st" "i < rows (m_v st)" "j < cols (m_v st)"
          "rows out = rows (m_v st)" "cols out = cols (m_v st)"
  shows "(p < m_t st \<longrightarrow>
            rows (computeWpH st p out) = rows (m_v st) \<and> cols (computeWpH st p out) = cols (m_v st)
            \<and> atM (computeWpH st p out) i j =
                (if j < p then 0
                 else (\<Sum>l<rows (m_h st). atM (m_w st ! p) i l * atM (m_h st) l (j - p))))
       \<and> (m_t st = 1 \<longrightarrow>
            atM (m_approx (computeApprox st)) i j
              = (\<Sum>l<rows (m_h st). atM (m_w st ! 0) i l * atM (m_h st) l j))
       \<and> (m_t st \<noteq> 1 \<longrightarrow>
            atM (m_approx (computeApprox st)) i j
              = (\<Sum>p<m_t st. atM (computeWpH st p out) i j))"
proof (intro conjI impI)
  assume p: "p < m_t st"
  show "rows (computeWpH st p out) = rows (m_v st)" "cols (computeWpH st p out) = cols (m_v st)"
    using assms by simp_all
  show "atM (computeWpH st p out) i j =
                (if j < p then 0
                 else (\<Sum>l<rows (m_h st). atM (m_w st ! p) i l * atM (m_h st) l (j - p)))"
    using computeWpH_at_wellShaped [OF assms(1) p assms(4) assms(2) assms(3)] .
next
  assume t: "m_t st = 1"
  show "atM (m_approx (computeApprox st)) i j
              = (\<Sum>l<rows (m_h st). atM (m_w st ! 0) i l * atM (m_h st) l j)"
    using assms t
    by (simp add: computeApprox_def multWithMatrix_def multWithMatrixSub_def wellShaped_def)
next
  assume t: "m_t st \<noteq> 1"
  have "rows (Matrix_new (rows (m_v st)) (cols (m_v st))) = rows (m_v st)"
    by (simp add: Matrix_new_def)
  from computeApprox_fold [OF assms(1) le_refl this assms(4), of "zeroM (m_approx st)"] assms
  show "atM (m_approx (computeApprox st)) i j = (\<Sum>p<m_t st. atM (computeWpH st p out) i j)"
    using t by (simp add: computeApprox_def Let_def case_prod_unfold wellShaped_def)
qed

lemma sum_lessThan_2: "(\<Sum>p<2. f p) = f 0 + f (1::nat)"
  by (simp add: numeral_2_eq_2)

theorem shifted_convolution_kernel_witness:
  "atM (computeWpH (exampleEngine (mat [[7, 8]]) [mat [[2]], mat [[3]]] (mat [[5, 6]])) 1 (mat [[9, 9]])) 0 0 = 0
   \<and> atM (computeWpH (exampleEngine (mat [[7, 8]]) [mat [[2]], mat [[3]]] (mat [[5, 6]])) 1 (mat [[9, 9]])) 0 1 = 15
   \<and> atM (m_approx (computeApprox (exampleEngine (mat [[7, 8]]) [mat [[2]], mat [[3]]] (mat [[5, 6]])))) 0 1 = 27"
proof -
  let ?st = "exampleEngine (mat [[7, 8]]) [mat [[2]], mat [[3]]] (mat [[5, 6]])"
  have ws: "wellShaped ?st"
    by (simp add: wellShaped_def exampleEngine_def mat_def Matrix_gen_def less_Suc_eq)
  have d: "(0::nat) < rows (m_v ?st)" "(0::nat) < cols (m_v ?st)" "(1::nat) < cols (m_v ?st)"
    "rows (mat [[9, 9]]) = rows (m_v ?st)" "cols (mat [[9, 9]]) = cols (m_v ?st)"
    "(1::nat) < m_t ?st" "(0::nat) < m_t ?st" "m_t ?st = 2" "rows (m_h ?st) = 1"
    by (simp_all add: exampleEngine_def mat_def)
  note k0 = shifted_convolution_kernel [OF ws d(1) d(2) d(4) d(5), of 1]
  note k1 = shifted_convolution_kernel [OF ws d(1) d(3) d(4) d(5), of 1]
  note k2 = shifted_convolution_kernel [OF ws d(1) d(3) d(4) d(5), of 0]
  have a: "atM (computeWpH ?st 1 (mat [[9, 9]])) 0 0 = 0" using k0 d by simp
  have b: "atM (computeWpH ?st 1 (mat [[9, 9]])) 0 1 = 15"
    using k1 d by (simp add: exampleEngine_def mat_def)
  have c: "atM (computeWpH ?st 0 (mat [[9, 9]])) 0 1 = 12"
    using k2 d by (simp add: exampleEngine_def mat_def)
  have "atM (m_approx (computeApprox ?st)) 0 1 = 27"
    using k1 d a b c by (simp add: sum_lessThan_2)
  with a b show ?thesis by simp
qed



section \<open>Normalisation\<close>

lemma forUpTo_nth_column:
  "p < length w \<Longrightarrow>
   forUpTo n (\<lambda>i w. w[p := setAt (w ! p) i j (g i (atM (w ! p) i j))]) w
     = w[p := forUpTo n (\<lambda>i m. setAt m i j (g i (atM m i j))) (w ! p)]"
  by (induction n) simp_all

lemma forUpTo_nth_columns:
  "p < length w \<Longrightarrow>
   forUpTo c (\<lambda>j w. forUpTo (rows (w ! p))
                (\<lambda>i w. w[p := setAt (w ! p) i j (g i j (atM (w ! p) i j))]) w) w
     = w[p := forUpTo c (\<lambda>j m. forUpTo (rows m)
                (\<lambda>i m. setAt m i j (g i j (atM m i j))) m) (w ! p)]"
proof (induction c)
  case 0 then show ?case by simp
next
  case (Suc c)
  let ?m = "forUpTo c (\<lambda>j m. forUpTo (rows m) (\<lambda>i m. setAt m i j (g i j (atM m i j))) m) (w ! p)"
  have "p < length (w[p := ?m])" using Suc.prems by simp
  from forUpTo_nth_column [OF this, where g = "\<lambda>i. g i c" and j = c and n = "rows ?m"]
  show ?case using Suc by simp
qed

lemma forFromTo_empty [simp]: "forFromTo a a body x = x"
  by (simp add: forFromTo_def)

lemma singleton_update: "length xs = Suc 0 \<Longrightarrow> xs[0 := y] = [y]"
  by (cases xs) simp_all

lemma normalizeMatrices_t1:
  assumes "m_t st = 1" "length (m_w st) = 1"
  shows "m_h (normalizeMatrices st)
           = forUpTo (cols (m_h st)) (\<lambda>j h. forUpTo (rows h)
               (\<lambda>i h. setAt h i j (atM h i j / frobeniusNorm (m_h st))) h) (m_h st)"
    and "m_w (normalizeMatrices st)
           = [forUpTo (cols (m_w st ! 0)) (\<lambda>j m. forUpTo (rows m)
               (\<lambda>i m. setAt m i j (atM m i j * frobeniusNorm (m_h st))) m) (m_w st ! 0)]"
proof -
  show "m_h (normalizeMatrices st)
           = forUpTo (cols (m_h st)) (\<lambda>j h. forUpTo (rows h)
               (\<lambda>i h. setAt h i j (atM h i j / frobeniusNorm (m_h st))) h) (m_h st)"
    by (simp add: normalizeMatrices_def Let_def case_prod_unfold)
  have l: "0 < length (m_w st)" using assms by simp
  show "m_w (normalizeMatrices st)
           = [forUpTo (cols (m_w st ! 0)) (\<lambda>j m. forUpTo (rows m)
               (\<lambda>i m. setAt m i j (atM m i j * frobeniusNorm (m_h st))) m) (m_w st ! 0)]"
    using assms forUpTo_nth_columns [OF l, where g = "\<lambda>i j x. x * frobeniusNorm (m_h st)"
                                      and c = "cols (m_w st ! 0)"]
    by (simp add: normalizeMatrices_def Let_def case_prod_unfold singleton_update)
qed


text \<open>
  Claim C7.  In a well-shaped engine with \<open>m_t = 1\<close> and a matrix \<open>m_h\<close> of positive
  Frobenius norm, \<open>normalizeMatrices\<close> divides every entry of \<open>m_h\<close> by that norm and
  multiplies every entry of \<open>m_w ! 0\<close> by it.  Afterwards the Frobenius norm of \<open>m_h\<close>
  is 1, and the product of \<open>m_w ! 0\<close> and \<open>m_h\<close>, hence the reconstruction computed from
  them, is the same as before (in real arithmetic).
\<close>
theorem normalize_product_invariant:
  assumes "wellShaped st" "m_t st = 1" "0 < frobeniusNorm (m_h st)"
  shows "frobeniusNorm (m_h (normalizeMatrices st)) = 1
       \<and> (\<forall>i<rows (m_h st). \<forall>j<cols (m_h st).
             atM (m_h (normalizeMatrices st)) i j = atM (m_h st) i j / frobeniusNorm (m_h st))
       \<and> (\<forall>i<rows (m_v st). \<forall>l<rows (m_h st).
             atM (m_w (normalizeMatrices st) ! 0) i l = atM (m_w st ! 0) i l * frobeniusNorm (m_h st))
       \<and> multWithMatrix (m_w (normalizeMatrices st) ! 0) (m_h (normalizeMatrices st)) target
           = multWithMatrix (m_w st ! 0) (m_h st) target
       \<and> m_approx (computeApprox (normalizeMatrices st)) = m_approx (computeApprox st)"
proof -
  define c where "c = frobeniusNorm (m_h st)"
  define S where "S = (\<Sum>i<rows (m_h st). \<Sum>j<cols (m_h st). (atM (m_h st) i j)\<^sup>2)"
  have c: "0 < c" "c = sqrt S" using assms(3) by (simp_all add: c_def S_def frobeniusNorm_def)
  then have S: "0 < S" "c\<^sup>2 = S" by simp_all
  have len: "length (m_w st) = 1" and w0: "rows (m_w st ! 0) = rows (m_v st)"
       "cols (m_w st ! 0) = rows (m_h st)"
    using assms(1,2) by (simp_all add: wellShaped_def)
  note n = normalizeMatrices_t1 [OF assms(2) len, folded c_def]
  have hd: "rows (m_h (normalizeMatrices st)) = rows (m_h st)"
           "cols (m_h (normalizeMatrices st)) = cols (m_h st)"
    and h: "\<And>i j. atM (m_h (normalizeMatrices st)) i j
              = (if j < cols (m_h st) \<and> i < rows (m_h st) then atM (m_h st) i j / c
                 else atM (m_h st) i j)"
    unfolding n(1) using forUpTo_columns [where g = "\<lambda>i j x. x / c" and m = "m_h st"]
    by simp_all
  have wd: "rows (m_w (normalizeMatrices st) ! 0) = rows (m_v st)"
           "cols (m_w (normalizeMatrices st) ! 0) = rows (m_h st)"
    and w: "\<And>i l. atM (m_w (normalizeMatrices st) ! 0) i l
              = (if l < rows (m_h st) \<and> i < rows (m_v st) then atM (m_w st ! 0) i l * c
                 else atM (m_w st ! 0) i l)"
    unfolding n(2) using forUpTo_columns [where g = "\<lambda>i j x. x * c" and m = "m_w st ! 0"] w0
    by simp_all
  have "(\<Sum>i<rows (m_h st). \<Sum>j<cols (m_h st). (atM (m_h (normalizeMatrices st)) i j)\<^sup>2)
          = (\<Sum>i<rows (m_h st). \<Sum>j<cols (m_h st). (atM (m_h st) i j)\<^sup>2 / S)"
    by (intro sum.cong refl) (simp add: h power_divide S)
  also have "\<dots> = (\<Sum>i<rows (m_h st). \<Sum>j<cols (m_h st). (atM (m_h st) i j)\<^sup>2) / S"
    by (simp add: sum_divide_distrib)
  also have "\<dots> = S / S"
    by (simp only: S_def)
  finally have f: "frobeniusNorm (m_h (normalizeMatrices st)) = 1"
    using S by (simp add: frobeniusNorm_def hd)
  have prod: "(\<Sum>l<rows (m_h st). atM (m_w (normalizeMatrices st) ! 0) i l
                                    * atM (m_h (normalizeMatrices st)) l j)
            = (\<Sum>l<rows (m_h st). atM (m_w st ! 0) i l * atM (m_h st) l j)"
    if "i < rows (m_v st)" "j < cols (m_h st)" for i j
    using that c by (intro sum.cong refl) (simp add: h w)
  have m: "multWithMatrix (m_w (normalizeMatrices st) ! 0) (m_h (normalizeMatrices st)) x
           = multWithMatrix (m_w st ! 0) (m_h st) x" for x
    unfolding multWithMatrix_def multWithMatrixSub_def
    by (rule arg_cong [where f = "\<lambda>f. x\<lparr>atM := f\<rparr>"], intro ext) (simp add: hd wd w0 prod)
  have t: "m_t (normalizeMatrices st) = 1" "m_approx (normalizeMatrices st) = m_approx st"
    using assms(2) by (simp_all add: normalizeMatrices_def Let_def case_prod_unfold)
  have a: "m_approx (computeApprox (normalizeMatrices st)) = m_approx (computeApprox st)"
    using assms(2) t m by (simp add: computeApprox_def)
  show ?thesis using f h w m a by (simp add: c_def)
qed


theorem normalize_product_invariant_witness:
  "m_t (exampleEngine (mat [[1, 1]]) [mat [[2]]] (mat [[3, 4]])) = 1
   \<and> 0 < frobeniusNorm (m_h (exampleEngine (mat [[1, 1]]) [mat [[2]]] (mat [[3, 4]])))
   \<and> frobeniusNorm (m_h (normalizeMatrices (exampleEngine (mat [[1, 1]]) [mat [[2]]] (mat [[3, 4]])))) = 1
   \<and> m_approx (computeApprox (normalizeMatrices (exampleEngine (mat [[1, 1]]) [mat [[2]]] (mat [[3, 4]]))))
       = m_approx (computeApprox (exampleEngine (mat [[1, 1]]) [mat [[2]]] (mat [[3, 4]])))"
proof -
  let ?st = "exampleEngine (mat [[1, 1]]) [mat [[2]]] (mat [[3, 4]])"
  have ws: "wellShaped ?st"
    by (simp add: wellShaped_def exampleEngine_def mat_def Matrix_gen_def)
  have t: "m_t ?st = 1" by (simp add: exampleEngine_def)
  have f: "0 < frobeniusNorm (m_h ?st)"
    by (simp add: exampleEngine_def mat_def frobeniusNorm_def sum_lessThan_2)
  from normalize_product_invariant [OF ws t f] t f show ?thesis by simp
qed


lemma sqrt_25: "sqrt 25 = 5"
  by (rule real_sqrt_unique) simp_all

lemma frob_34: "frobeniusNorm \<lparr>rows = Suc 0, cols = Suc (Suc 0), atM = \<lambda>i j. [[3, 4]] ! i ! j\<rparr> = 5"
  by (simp add: frobeniusNorm_def sqrt_25)

text \<open>
  Claim C3.  The claim has \<open>hNormRight ! 0 = 0\<close>, so that \<open>m_w ! 0\<close> is multiplied by the
  Frobenius norm \<open>h\<close> of \<open>m_h\<close> itself, and \<open>m_w ! 1\<close> by \<open>h\<close> minus the squared norm
  of the last column.  The loop of the program stores the sum for round \<open>p\<close> at index
  \<open>p - 1\<close>.  For two bases and \<open>m_h = [[3, 4]]\<close>, where \<open>h = 5\<close> and the last column of
  the normalised \<open>m_h\<close> is \<open>4 / 5\<close>, the program multiplies \<open>m_w ! 0\<close> by \<open>5 - 16 / 25\<close>
  and \<open>m_w ! 1\<close> by \<open>5\<close>.
\<close>
theorem normalizeMatrices_two_bases:
  "atM (m_w (normalizeMatrices (exampleEngine (mat [[1, 1]]) [mat [[1]], mat [[1]]] (mat [[3, 4]]))) ! 0) 0 0
     = 5 - 16 / 25
   \<and> atM (m_w (normalizeMatrices (exampleEngine (mat [[1, 1]]) [mat [[1]], mat [[1]]] (mat [[3, 4]]))) ! 1) 0 0
     = 5"
  by (simp add: normalizeMatrices_def exampleEngine_def Let_def frob_34 forFromTo_def dotColCol_def mat_def usub_def)


section \<open>The drivers at particular engines\<close>

lemma nextItStep_None [simp]:
  "nextItStep None maxSteps st = (st\<lparr>m_numSteps := m_numSteps st + 1\<rparr>, None)"
  by (simp add: nextItStep_def)

lemma checkConvergence_nonpositive [simp]:
  "eps \<le> 0 \<Longrightarrow> checkConvergence eps b st = (False, st)"
  by (simp add: checkConvergence_def)

lemma factorizeNMDKL_one_step:
  "factorizeNMDKL (Suc 0) 0 None st
     = ((factorizeNMDKL_body (computeApprox (st\<lparr>m_numSteps := 0\<rparr>)))\<lparr>m_numSteps := Suc 0\<rparr>, None)"
  apply (simp add: factorizeNMDKL_def)
  apply (subst factorizeNMDKL_loop.simps)
  apply (simp add: Let_def)
  apply (subst factorizeNMDKL_loop.simps)
  apply simp
  done

text \<open>
  Claim C1.  The claim has every divisor of a multiplicative update replaced by
  \<open>DIVISOR_FLOOR\<close> when it is not positive, in particular the divisor \<^verbatim>\<open>hRowSum\<close> of the
  update of \<open>m_w\<close> in \<open>factorizeNMDKL\<close>.  That divisor is the row sum of \<open>m_h\<close> as it
  is.  In the engine with \<open>v = [[1]]\<close>, \<open>m_w ! 0 = [[1, 1]]\<close> and \<open>m_h = [[1], [0]]\<close>,
  no column of \<open>m_w\<close> is constant and row 1 of \<open>m_h\<close> sums to 0.  A call of the driver
  with \<open>maxSteps = 1\<close> and without convergence test is one round of the loop on the
  engine after \<open>computeApprox\<close>.  The update of \<open>m_w\<close> in that round executes two
  divisions, with the divisors 1 and 0: the second divisor is not positive and is not
  replaced.  The entry (0, 1) of \<open>m_w ! 0\<close>, which was 1, is left multiplied by the
  quotient of the numerator 0 and the divisor 0.
\<close>
theorem nmdkl_unguarded_divisor:
  "\<not> m_wConstant (exampleEngine (mat [[1]]) [mat [[1, 1]]] (mat [[1], [0]]))
   \<and> \<not> m_wColConstant (exampleEngine (mat [[1]]) [mat [[1, 1]]] (mat [[1], [0]])) ! 1
   \<and> fst (factorizeNMDKL 1 0 None (exampleEngine (mat [[1]]) [mat [[1, 1]]] (mat [[1], [0]])))
       = (factorizeNMDKL_body (computeApprox
            ((exampleEngine (mat [[1]]) [mat [[1, 1]]] (mat [[1], [0]]))\<lparr>m_numSteps := 0\<rparr>)))\<lparr>m_numSteps := 1\<rparr>
   \<and> snd (factorizeNMDKL_WUpdate
            (elementWiseDivision (mat [[1]])
               (m_approx (computeApprox
                  ((exampleEngine (mat [[1]]) [mat [[1, 1]]] (mat [[1], [0]]))\<lparr>m_numSteps := 0\<rparr>)))
               (Matrix_new 1 1))
            (computeApprox ((exampleEngine (mat [[1]]) [mat [[1, 1]]] (mat [[1], [0]]))\<lparr>m_numSteps := 0\<rparr>)))
       = [1, 0]
   \<and> atM (m_w (fst (factorizeNMDKL 1 0 None (exampleEngine (mat [[1]]) [mat [[1, 1]]] (mat [[1], [0]])))) ! 0) 0 1
       = 1 * ieeeQuotient 0 0"
  by (simp add: factorizeNMDKL_one_step factorizeNMDKL_body_def factorizeNMDKL_WUpdate_def
        exampleEngine_def mat_def rowSum_def Let_def computeApprox_def multWithMatrix_def
        multWithMatrixSub_def multWithTransposedMatrix_def elementWiseDivision_def Matrix_gen_def Matrix_new_def)

lemma factorizeNMFEDSparseNorm_one_step:
  "factorizeNMFEDSparseNorm (Suc 0) 0 None st
     = ((factorizeNMFEDSparseNorm_body (st\<lparr>m_numSteps := 0\<rparr>))\<lparr>m_numSteps := Suc 0\<rparr>, None)"
  apply (simp add: factorizeNMFEDSparseNorm_def)
  apply (subst factorizeNMFEDSparseNorm_loop.simps)
  apply (simp add: Let_def)
  apply (subst factorizeNMFEDSparseNorm_loop.simps)
  apply simp
  done

text \<open>
  Claim C2.  The claim has no matrix of \<open>m_w\<close> written while \<open>m_wConstant\<close> is set, and no
  constant column written, in all six drivers.  The driver \<open>factorizeNMFEDSparseNorm\<close>
  normalises every column of \<open>m_w ! 0\<close> whatever the flags are.  In the engine with
  \<open>v = [[1]]\<close>, \<open>m_w ! 0 = [[2]]\<close> and \<open>m_h = [[1]]\<close>, with \<open>m_wConstant\<close> set and
  the only column marked constant, one round under EuclideanDistanceSparseNormalized
  succeeds and changes the entry of \<open>m_w ! 0\<close> from 2 to 1.
\<close>
theorem sparseNorm_writes_constant_w:
  "m_wConstant ((exampleEngine (mat [[1]]) [mat [[2]]] (mat [[1]]))\<lparr>m_wConstant := True, m_wColConstant := [True]\<rparr>)
   \<and> m_wColConstant ((exampleEngine (mat [[1]]) [mat [[2]]] (mat [[1]]))\<lparr>m_wConstant := True, m_wColConstant := [True]\<rparr>) ! 0
   \<and> atM (m_w ((exampleEngine (mat [[1]]) [mat [[2]]] (mat [[1]]))\<lparr>m_wConstant := True, m_wColConstant := [True]\<rparr>) ! 0) 0 0 = 2
   \<and> fst (decompose EuclideanDistanceSparseNormalized 1 0 None
          ((exampleEngine (mat [[1]]) [mat [[2]]] (mat [[1]]))\<lparr>m_wConstant := True, m_wColConstant := [True]\<rparr>)) = None
   \<and> atM (m_w (fst (snd (decompose EuclideanDistanceSparseNormalized 1 0 None
          ((exampleEngine (mat [[1]]) [mat [[2]]] (mat [[1]]))\<lparr>m_wConstant := True, m_wColConstant := [True]\<rparr>)))) ! 0) 0 0 = 1"
  by (simp add: decompose_def factorizeNMFEDSparseNorm_one_step factorizeNMFEDSparseNorm_body_def
        exampleEngine_def mat_def Let_def dotColCol_def)



section \<open>Iteration count and progress notifications\<close>

lemma notifications_empty [simp]: "notifications d m a a = []"
  by (simp add: notifications_def)

lemma notifications_step:
  "a < b \<Longrightarrow> notifications d m a b
     = (if Suc a mod d = 0 then [floatFraction (Suc a) m] else []) @ notifications d m (Suc a) b"
  using upt_conv_Cons [of "Suc a" "Suc b"] by (simp add: notifications_def del: upt_Suc)

lemma nextItStep_observer:
  "snd (nextItStep observer maxSteps st)
     = map_option (\<lambda>ob. ob @ (if Suc (m_numSteps st) mod m_notificationDelay st = 0
                               then [floatFraction (Suc (m_numSteps st)) maxSteps] else [])) observer"
  by (cases observer) (simp_all add: nextItStep_def Let_def progressChanged_def)

lemma driver_loop_generic:
  fixes loop :: "ProgressObserver option \<Rightarrow> deconvolver \<Rightarrow> deconvolver \<times> ProgressObserver option"
  assumes eq: "\<And>observer st. loop observer st =
            (if m_numSteps st < maxSteps then
               (let c = pre st
                in if stop c then (snd c, observer)
                   else (let n = nextItStep observer maxSteps (body (snd c))
                         in loop (snd n) (fst n)))
             else (st, observer))"
    and pre: "\<And>st. m_numSteps (snd (pre st)) = m_numSteps st
                  \<and> m_notificationDelay (snd (pre st)) = m_notificationDelay st"
    and body: "\<And>st. m_numSteps (body st) = m_numSteps st
                  \<and> m_notificationDelay (body st) = m_notificationDelay st"
  shows "m_numSteps st \<le> m_numSteps (fst (loop observer st))
       \<and> (m_numSteps st \<le> maxSteps \<longrightarrow> m_numSteps (fst (loop observer st)) \<le> maxSteps)
       \<and> ((\<forall>s. \<not> stop (pre s)) \<and> m_numSteps st \<le> maxSteps
             \<longrightarrow> m_numSteps (fst (loop observer st)) = maxSteps)
       \<and> m_notificationDelay (fst (loop observer st)) = m_notificationDelay st
       \<and> snd (loop observer st)
           = map_option (\<lambda>ob. ob @ notifications (m_notificationDelay st) maxSteps
                                     (m_numSteps st) (m_numSteps (fst (loop observer st)))) observer"
proof (induction "maxSteps - m_numSteps st" arbitrary: st observer rule: less_induct)
  case less
  show ?case
  proof (cases "m_numSteps st < maxSteps")
    case False
    then show ?thesis by (simp add: eq [of observer st] option.map_ident)
  next
    case True
    show ?thesis
    proof (cases "stop (pre st)")
      case True
      with \<open>m_numSteps st < maxSteps\<close> show ?thesis
        by (auto simp: eq [of observer st] pre option.map_ident)
    next
      case False
      define st2 where "st2 = fst (nextItStep observer maxSteps (body (snd (pre st))))"
      define ob2 where "ob2 = snd (nextItStep observer maxSteps (body (snd (pre st))))"
      have n2: "m_numSteps st2 = Suc (m_numSteps st)"
        and d2: "m_notificationDelay st2 = m_notificationDelay st"
        by (simp_all add: st2_def pre body)
      have o2: "ob2 = map_option (\<lambda>ob. ob @ (if Suc (m_numSteps st) mod m_notificationDelay st = 0
                               then [floatFraction (Suc (m_numSteps st)) maxSteps] else [])) observer"
        by (simp add: ob2_def nextItStep_observer pre body)
      have l: "loop observer st = loop ob2 st2"
        using True False by (simp add: eq [of observer st] Let_def st2_def ob2_def)
      have "maxSteps - m_numSteps st2 < maxSteps - m_numSteps st"
        using True n2 by simp
      note IH = less [OF this, of ob2]
      define nf where "nf = m_numSteps (fst (loop ob2 st2))"
      define x where "x = (if Suc (m_numSteps st) mod m_notificationDelay st = 0
                               then [floatFraction (Suc (m_numSteps st)) maxSteps] else [])"
      have le: "Suc (m_numSteps st) \<le> nf"
        using IH n2 by (simp add: nf_def)
      then have lt: "m_numSteps st < nf" by simp
      have "snd (loop ob2 st2)
              = map_option (\<lambda>ob. ob @ notifications (m_notificationDelay st) maxSteps
                                        (Suc (m_numSteps st)) nf) ob2"
        using IH by (simp add: n2 d2 nf_def)
      also have "\<dots> = map_option (\<lambda>ob. ob @ x @ notifications (m_notificationDelay st) maxSteps
                                        (Suc (m_numSteps st)) nf) observer"
        unfolding o2 x_def [symmetric] by (simp add: option.map_comp comp_def)
      also have "\<dots> = map_option (\<lambda>ob. ob @ notifications (m_notificationDelay st) maxSteps
                                        (m_numSteps st) nf) observer"
        using notifications_step [OF lt, of "m_notificationDelay st" maxSteps]
        by (simp add: x_def)
      finally have s: "snd (loop ob2 st2)
              = map_option (\<lambda>ob. ob @ notifications (m_notificationDelay st) maxSteps
                                        (m_numSteps st) nf) observer" .
      have r: "m_numSteps st \<le> nf"
              "m_numSteps st \<le> maxSteps \<longrightarrow> nf \<le> maxSteps"
              "(\<forall>s. \<not> stop (pre s)) \<and> m_numSteps st \<le> maxSteps \<longrightarrow> nf = maxSteps"
              "m_notificationDelay (fst (loop ob2 st2)) = m_notificationDelay st"
        using IH True le by (simp_all add: n2 d2 nf_def)
      show ?thesis
        unfolding l using r s by (simp add: nf_def)
    qed
  qed
qed


lemma checkConvergence_never [simp]: "eps \<le> 0 \<Longrightarrow> \<not> fst (checkConvergence eps b st)"
  by (simp add: checkConvergence_def)

lemma factorizeNMFED_loop_run:
  "m_numSteps st \<le> m_numSteps (fst (factorizeNMFED_loop maxSteps eps observer st))
   \<and> (m_numSteps st \<le> maxSteps \<longrightarrow> m_numSteps (fst (factorizeNMFED_loop maxSteps eps observer st)) \<le> maxSteps)
   \<and> (eps \<le> 0 \<and> m_numSteps st \<le> maxSteps
         \<longrightarrow> m_numSteps (fst (factorizeNMFED_loop maxSteps eps observer st)) = maxSteps)
   \<and> m_notificationDelay (fst (factorizeNMFED_loop maxSteps eps observer st)) = m_notificationDelay st
   \<and> snd (factorizeNMFED_loop maxSteps eps observer st)
       = map_option (\<lambda>ob. ob @ notifications (m_notificationDelay st) maxSteps (m_numSteps st)
                                 (m_numSteps (fst (factorizeNMFED_loop maxSteps eps observer st)))) observer"
proof -
  have eq: "factorizeNMFED_loop maxSteps eps observer st =
            (if m_numSteps st < maxSteps then
               (let c = (checkConvergence eps True) st
                in if fst c then (snd c, observer)
                   else (let n = nextItStep observer maxSteps (factorizeNMFED_body (snd c))
                         in factorizeNMFED_loop maxSteps eps (snd n) (fst n)))
             else (st, observer))" for observer st
    by (subst factorizeNMFED_loop.simps) (simp add: Let_def)
  have pre: "m_numSteps (snd ((checkConvergence eps True) st)) = m_numSteps st
           \<and> m_notificationDelay (snd ((checkConvergence eps True) st)) = m_notificationDelay st" for st
    by simp
  have body: "m_numSteps (factorizeNMFED_body st) = m_numSteps st
           \<and> m_notificationDelay (factorizeNMFED_body st) = m_notificationDelay st" for st
    by simp
  have never: "eps \<le> 0 \<longrightarrow> (\<forall>s. \<not> fst ((checkConvergence eps True) s))"
    by simp
  from driver_loop_generic [of "factorizeNMFED_loop maxSteps eps" maxSteps "checkConvergence eps True" fst factorizeNMFED_body,
         OF eq pre body, of st observer] never
  show ?thesis by simp
qed

lemma factorizeNMFED_run:
  "m_numSteps (fst (factorizeNMFED maxSteps eps observer st)) \<le> maxSteps
   \<and> (eps \<le> 0 \<longrightarrow> m_numSteps (fst (factorizeNMFED maxSteps eps observer st)) = maxSteps)
   \<and> m_notificationDelay (fst (factorizeNMFED maxSteps eps observer st)) = m_notificationDelay st
   \<and> snd (factorizeNMFED maxSteps eps observer st)
       = map_option (\<lambda>ob. ob @ notifications (m_notificationDelay st) maxSteps 0
                                 (m_numSteps (fst (factorizeNMFED maxSteps eps observer st)))) observer"
  using factorizeNMFED_loop_run [of "st\<lparr>m_numSteps := 0\<rparr>" maxSteps eps observer]
  by (simp add: factorizeNMFED_def)

lemma factorizeNMFEDSparse_loop_run:
  "m_numSteps st \<le> m_numSteps (fst (factorizeNMFEDSparse_loop maxSteps eps observer st))
   \<and> (m_numSteps st \<le> maxSteps \<longrightarrow> m_numSteps (fst (factorizeNMFEDSparse_loop maxSteps eps observer st)) \<le> maxSteps)
   \<and> (eps \<le> 0 \<and> m_numSteps st \<le> maxSteps
         \<longrightarrow> m_numSteps (fst (factorizeNMFEDSparse_loop maxSteps eps observer st)) = maxSteps)
   \<and> m_notificationDelay (fst (factorizeNMFEDSparse_loop maxSteps eps observer st)) = m_notificationDelay st
   \<and> snd (factorizeNMFEDSparse_loop maxSteps eps observer st)
       = map_option (\<lambda>ob. ob @ notifications (m_notificationDelay st) maxSteps (m_numSteps st)
                                 (m_numSteps (fst (factorizeNMFEDSparse_loop maxSteps eps observer st)))) observer"
proof -
  have eq: "factorizeNMFEDSparse_loop maxSteps eps observer st =
            (if m_numSteps st < maxSteps then
               (let c = (checkConvergence eps True) st
                in if fst c then (snd c, observer)
                   else (let n = nextItStep observer maxSteps (factorizeNMFEDSparse_body (snd c))
                         in factorizeNMFEDSparse_loop maxSteps eps (snd n) (fst n)))
             else (st, observer))" for observer st
    by (subst factorizeNMFEDSparse_loop.simps) (simp add: Let_def)
  have pre: "m_numSteps (snd ((checkConvergence eps True) st)) = m_numSteps st
           \<and> m_notificationDelay (snd ((checkConvergence eps True) st)) = m_notificationDelay st" for st
    by simp
  have body: "m_numSteps (factorizeNMFEDSparse_body st) = m_numSteps st
           \<and> m_notificationDelay (factorizeNMFEDSparse_body st) = m_notificationDelay st" for st
    by simp
  have never: "eps \<le> 0 \<longrightarrow> (\<forall>s. \<not> fst ((checkConvergence eps True) s))"
    by simp
  from driver_loop_generic [of "factorizeNMFEDSparse_loop maxSteps eps" maxSteps "checkConvergence eps True" fst factorizeNMFEDSparse_body,
         OF eq pre body, of st observer] never
  show ?thesis by simp
qed

lemma factorizeNMFEDSparse_run:
  "m_numSteps (fst (factorizeNMFEDSparse maxSteps eps observer st)) \<le> maxSteps
   \<and> (eps \<le> 0 \<longrightarrow> m_numSteps (fst (factorizeNMFEDSparse maxSteps eps observer st)) = maxSteps)
   \<and> m_notificationDelay (fst (factorizeNMFEDSparse maxSteps eps observer st)) = m_notificationDelay st
   \<and> snd (factorizeNMFEDSparse maxSteps eps observer st)
       = map_option (\<lambda>ob. ob @ notifications (m_notificationDelay st) maxSteps 0
                                 (m_numSteps (fst (factorizeNMFEDSparse maxSteps eps observer st)))) observer"
  using factorizeNMFEDSparse_loop_run [of "st\<lparr>m_numSteps := 0\<rparr>" maxSteps eps observer]
  by (simp add: factorizeNMFEDSparse_def)

lemma factorizeNMFEDSparseNorm_loop_run:
  "m_numSteps st \<le> m_numSteps (fst (factorizeNMFEDSparseNorm_loop maxSteps eps observer st))
   \<and> (m_numSteps st \<le> maxSteps \<longrightarrow> m_numSteps (fst (factorizeNMFEDSparseNorm_loop maxSteps eps observer st)) \<le> maxSteps)
   \<and> (eps \<le> 0 \<and> m_numSteps st \<le> maxSteps
         \<longrightarrow> m_numSteps (fst (factorizeNMFEDSparseNorm_loop maxSteps eps observer st)) = maxSteps)
   \<and> m_notificationDelay (fst (factorizeNMFEDSparseNorm_loop maxSteps eps observer st)) = m_notificationDelay st
   \<and> snd (factorizeNMFEDSparseNorm_loop maxSteps eps observer st)
       = map_option (\<lambda>ob. ob @ notifications (m_notificationDelay st) maxSteps (m_numSteps st)
                                 (m_numSteps (fst (factorizeNMFEDSparseNorm_loop maxSteps eps observer st)))) observer"
proof -
  have eq: "factorizeNMFEDSparseNorm_loop maxSteps eps observer st =
            (if m_numSteps st < maxSteps then
               (let c = (checkConvergence eps True) st
                in if fst c then (snd c, observer)
                   else (let n = nextItStep observer maxSteps (factorizeNMFEDSparseNorm_body (snd c))
                         in factorizeNMFEDSparseNorm_loop maxSteps eps (snd n) (fst n)))
             else (st, observer))" for observer st
    by (subst factorizeNMFEDSparseNorm_loop.simps) (simp add: Let_def)
  have pre: "m_numSteps (snd ((checkConvergence eps True) st)) = m_numSteps st
           \<and> m_notificationDelay (snd ((checkConvergence eps True) st)) = m_notificationDelay st" for st
    by simp
  have body: "m_numSteps (factorizeNMFEDSparseNorm_body st) = m_numSteps st
           \<and> m_notificationDelay (factorizeNMFEDSparseNorm_body st) = m_notificationDelay st" for st
    by simp
  have never: "eps \<le> 0 \<longrightarrow> (\<forall>s. \<not> fst ((checkConvergence eps True) s))"
    by simp
  from driver_loop_generic [of "factorizeNMFEDSparseNorm_loop maxSteps eps" maxSteps "checkConvergence eps True" fst factorizeNMFEDSparseNorm_body,
         OF eq pre body, of st observer] never
  show ?thesis by simp
qed

lemma factorizeNMFEDSparseNorm_run:
  "m_numSteps (fst (factorizeNMFEDSparseNorm maxSteps eps observer st)) \<le> maxSteps
   \<and> (eps \<le> 0 \<longrightarrow> m_numSteps (fst (factorizeNMFEDSparseNorm maxSteps eps observer st)) = maxSteps)
   \<and> m_notificationDelay (fst (factorizeNMFEDSparseNorm maxSteps eps observer st)) = m_notificationDelay st
   \<and> snd (factorizeNMFEDSparseNorm maxSteps eps observer st)
       = map_option (\<lambda>ob. ob @ notifications (m_notificationDelay st) maxSteps 0
                                 (m_numSteps (fst (factorizeNMFEDSparseNorm maxSteps eps observer st)))) observer"
  using factorizeNMFEDSparseNorm_loop_run [of "st\<lparr>m_numSteps := 0\<rparr>" maxSteps eps observer]
  by (simp add: factorizeNMFEDSparseNorm_def)

lemma factorizeNMDED_loop_run:
  "m_numSteps st \<le> m_numSteps (fst (factorizeNMDED_loop maxSteps eps observer st))
   \<and> (m_numSteps st \<le> maxSteps \<longrightarrow> m_numSteps (fst (factorizeNMDED_loop maxSteps eps observer st)) \<le> maxSteps)
   \<and> (eps \<le> 0 \<and> m_numSteps st \<le> maxSteps
         \<longrightarrow> m_numSteps (fst (factorizeNMDED_loop maxSteps eps observer st)) = maxSteps)
   \<and> m_notificationDelay (fst (factorizeNMDED_loop maxSteps eps observer st)) = m_notificationDelay st
   \<and> snd (factorizeNMDED_loop maxSteps eps observer st)
       = map_option (\<lambda>ob. ob @ notifications (m_notificationDelay st) maxSteps (m_numSteps st)
                                 (m_numSteps (fst (factorizeNMDED_loop maxSteps eps observer st)))) observer"
proof -
  have eq: "factorizeNMDED_loop maxSteps eps observer st =
            (if m_numSteps st < maxSteps then
               (let c = (\<lambda>s. checkConvergence eps False (computeApprox s)) st
                in if fst c then (snd c, observer)
                   else (let n = nextItStep observer maxSteps (factorizeNMDED_body (snd c))
                         in factorizeNMDED_loop maxSteps eps (snd n) (fst n)))
             else (st, observer))" for observer st
    by (subst factorizeNMDED_loop.simps) (simp add: Let_def)
  have pre: "m_numSteps (snd ((\<lambda>s. checkConvergence eps False (computeApprox s)) st)) = m_numSteps st
           \<and> m_notificationDelay (snd ((\<lambda>s. checkConvergence eps False (computeApprox s)) st)) = m_notificationDelay st" for st
    by simp
  have body: "m_numSteps (factorizeNMDED_body st) = m_numSteps st
           \<and> m_notificationDelay (factorizeNMDED_body st) = m_notificationDelay st" for st
    by simp
  have never: "eps \<le> 0 \<longrightarrow> (\<forall>s. \<not> fst ((\<lambda>s. checkConvergence eps False (computeApprox s)) s))"
    by simp
  from driver_loop_generic [of "factorizeNMDED_loop maxSteps eps" maxSteps "\<lambda>s. checkConvergence eps False (computeApprox s)" fst factorizeNMDED_body,
         OF eq pre body, of st observer] never
  show ?thesis by simp
qed

lemma factorizeNMDED_run:
  "m_numSteps (fst (factorizeNMDED maxSteps eps observer st)) \<le> maxSteps
   \<and> (eps \<le> 0 \<longrightarrow> m_numSteps (fst (factorizeNMDED maxSteps eps observer st)) = maxSteps)
   \<and> m_notificationDelay (fst (factorizeNMDED maxSteps eps observer st)) = m_notificationDelay st
   \<and> snd (factorizeNMDED maxSteps eps observer st)
       = map_option (\<lambda>ob. ob @ notifications (m_notificationDelay st) maxSteps 0
                                 (m_numSteps (fst (factorizeNMDED maxSteps eps observer st)))) observer"
  using factorizeNMDED_loop_run [of "st\<lparr>m_numSteps := 0\<rparr>" maxSteps eps observer]
  by (simp add: factorizeNMDED_def)

lemma factorizeNMDKL_loop_run:
  "m_numSteps st \<le> m_numSteps (fst (factorizeNMDKL_loop maxSteps eps observer st))
   \<and> (m_numSteps st \<le> maxSteps \<longrightarrow> m_numSteps (fst (factorizeNMDKL_loop maxSteps eps observer st)) \<le> maxSteps)
   \<and> (eps \<le> 0 \<and> m_numSteps st \<le> maxSteps
         \<longrightarrow> m_numSteps (fst (factorizeNMDKL_loop maxSteps eps observer st)) = maxSteps)
   \<and> m_notificationDelay (fst (factorizeNMDKL_loop maxSteps eps observer st)) = m_notificationDelay st
   \<and> snd (factorizeNMDKL_loop maxSteps eps observer st)
       = map_option (\<lambda>ob. ob @ notifications (m_notificationDelay st) maxSteps (m_numSteps st)
                                 (m_numSteps (fst (factorizeNMDKL_loop maxSteps eps observer st)))) observer"
proof -
  have eq: "factorizeNMDKL_loop maxSteps eps observer st =
            (if m_numSteps st < maxSteps then
               (let c = (\<lambda>s. checkConvergence eps False (computeApprox s)) st
                in if fst c then (snd c, observer)
                   else (let n = nextItStep observer maxSteps (factorizeNMDKL_body (snd c))
                         in factorizeNMDKL_loop maxSteps eps (snd n) (fst n)))
             else (st, observer))" for observer st
    by (subst factorizeNMDKL_loop.simps) (simp add: Let_def)
  have pre: "m_numSteps (snd ((\<lambda>s. checkConvergence eps False (computeApprox s)) st)) = m_numSteps st
           \<and> m_notificationDelay (snd ((\<lambda>s. checkConvergence eps False (computeApprox s)) st)) = m_notificationDelay st" for st
    by simp
  have body: "m_numSteps (factorizeNMDKL_body st) = m_numSteps st
           \<and> m_notificationDelay (factorizeNMDKL_body st) = m_notificationDelay st" for st
    by simp
  have never: "eps \<le> 0 \<longrightarrow> (\<forall>s. \<not> fst ((\<lambda>s. checkConvergence eps False (computeApprox s)) s))"
    by simp
  from driver_loop_generic [of "factorizeNMDKL_loop maxSteps eps" maxSteps "\<lambda>s. checkConvergence eps False (computeApprox s)" fst factorizeNMDKL_body,
         OF eq pre body, of st observer] never
  show ?thesis by simp
qed

lemma factorizeNMDKL_run:
  "m_numSteps (fst (factorizeNMDKL maxSteps eps observer st)) \<le> maxSteps
   \<and> (eps \<le> 0 \<longrightarrow> m_numSteps (fst (factorizeNMDKL maxSteps eps observer st)) = maxSteps)
   \<and> m_notificationDelay (fst (factorizeNMDKL maxSteps eps observer st)) = m_notificationDelay st
   \<and> snd (factorizeNMDKL maxSteps eps observer st)
       = map_option (\<lambda>ob. ob @ notifications (m_notificationDelay st) maxSteps 0
                                 (m_numSteps (fst (factorizeNMDKL maxSteps eps observer st)))) observer"
  using factorizeNMDKL_loop_run [of "st\<lparr>m_numSteps := 0\<rparr>" maxSteps eps observer]
  by (simp add: factorizeNMDKL_def)

lemma factorizeNMFKLSparse_loop_run:
  "m_numSteps st \<le> m_numSteps (fst (factorizeNMFKLSparse_loop maxSteps eps observer st))
   \<and> (m_numSteps st \<le> maxSteps \<longrightarrow> m_numSteps (fst (factorizeNMFKLSparse_loop maxSteps eps observer st)) \<le> maxSteps)
   \<and> (eps \<le> 0 \<and> m_numSteps st \<le> maxSteps
         \<longrightarrow> m_numSteps (fst (factorizeNMFKLSparse_loop maxSteps eps observer st)) = maxSteps)
   \<and> m_notificationDelay (fst (factorizeNMFKLSparse_loop maxSteps eps observer st)) = m_notificationDelay st
   \<and> snd (factorizeNMFKLSparse_loop maxSteps eps observer st)
       = map_option (\<lambda>ob. ob @ notifications (m_notificationDelay st) maxSteps (m_numSteps st)
                                 (m_numSteps (fst (factorizeNMFKLSparse_loop maxSteps eps observer st)))) observer"
proof -
  have eq: "factorizeNMFKLSparse_loop maxSteps eps observer st =
            (if m_numSteps st < maxSteps then
               (let c = (\<lambda>s. checkConvergence eps False (computeApprox s)) st
                in if fst c then (snd c, observer)
                   else (let n = nextItStep observer maxSteps (factorizeNMFKLSparse_body (snd c))
                         in factorizeNMFKLSparse_loop maxSteps eps (snd n) (fst n)))
             else (st, observer))" for observer st
    by (subst factorizeNMFKLSparse_loop.simps) (simp add: Let_def)
  have pre: "m_numSteps (snd ((\<lambda>s. checkConvergence eps False (computeApprox s)) st)) = m_numSteps st
           \<and> m_notificationDelay (snd ((\<lambda>s. checkConvergence eps False (computeApprox s)) st)) = m_notificationDelay st" for st
    by simp
  have body: "m_numSteps (factorizeNMFKLSparse_body st) = m_numSteps st
           \<and> m_notificationDelay (factorizeNMFKLSparse_body st) = m_notificationDelay st" for st
    by simp
  have never: "eps \<le> 0 \<longrightarrow> (\<forall>s. \<not> fst ((\<lambda>s. checkConvergence eps False (computeApprox s)) s))"
    by simp
  from driver_loop_generic [of "factorizeNMFKLSparse_loop maxSteps eps" maxSteps "\<lambda>s. checkConvergence eps False (computeApprox s)" fst factorizeNMFKLSparse_body,
         OF eq pre body, of st observer] never
  show ?thesis by simp
qed

lemma factorizeNMFKLSparse_run:
  "m_numSteps (fst (factorizeNMFKLSparse maxSteps eps observer st)) \<le> maxSteps
   \<and> (eps \<le> 0 \<longrightarrow> m_numSteps (fst (factorizeNMFKLSparse maxSteps eps observer st)) = maxSteps)
   \<and> m_notificationDelay (fst (factorizeNMFKLSparse maxSteps eps observer st)) = m_notificationDelay st
   \<and> snd (factorizeNMFKLSparse maxSteps eps observer st)
       = map_option (\<lambda>ob. ob @ notifications (m_notificationDelay st) maxSteps 0
                                 (m_numSteps (fst (factorizeNMFKLSparse maxSteps eps observer st)))) observer"
  using factorizeNMFKLSparse_loop_run [of "st\<lparr>m_numSteps := 0\<rparr>" maxSteps eps observer]
  by (simp add: factorizeNMFKLSparse_def)

lemma factorizeNMFKLTempCont_loop_run:
  "m_numSteps st \<le> m_numSteps (fst (factorizeNMFKLTempCont_loop maxSteps eps observer st))
   \<and> (m_numSteps st \<le> maxSteps \<longrightarrow> m_numSteps (fst (factorizeNMFKLTempCont_loop maxSteps eps observer st)) \<le> maxSteps)
   \<and> (eps \<le> 0 \<and> m_numSteps st \<le> maxSteps
         \<longrightarrow> m_numSteps (fst (factorizeNMFKLTempCont_loop maxSteps eps observer st)) = maxSteps)
   \<and> m_notificationDelay (fst (factorizeNMFKLTempCont_loop maxSteps eps observer st)) = m_notificationDelay st
   \<and> snd (factorizeNMFKLTempCont_loop maxSteps eps observer st)
       = map_option (\<lambda>ob. ob @ notifications (m_notificationDelay st) maxSteps (m_numSteps st)
                                 (m_numSteps (fst (factorizeNMFKLTempCont_loop maxSteps eps observer st)))) observer"
proof -
  have eq: "factorizeNMFKLTempCont_loop maxSteps eps observer st =
            (if m_numSteps st < maxSteps then
               (let c = (\<lambda>s. checkConvergence eps False (computeApprox s)) st
                in if fst c then (snd c, observer)
                   else (let n = nextItStep observer maxSteps (factorizeNMFKLTempCont_body (snd c))
                         in factorizeNMFKLTempCont_loop maxSteps eps (snd n) (fst n)))
             else (st, observer))" for observer st
    by (subst factorizeNMFKLTempCont_loop.simps) (simp add: Let_def)
  have pre: "m_numSteps (snd ((\<lambda>s. checkConvergence eps False (computeApprox s)) st)) = m_numSteps st
           \<and> m_notificationDelay (snd ((\<lambda>s. checkConvergence eps False (computeApprox s)) st)) = m_notificationDelay st" for st
    by simp
  have body: "m_numSteps (factorizeNMFKLTempCont_body st) = m_numSteps st
           \<and> m_notificationDelay (factorizeNMFKLTempCont_body st) = m_notificationDelay st" for st
    by simp
  have never: "eps \<le> 0 \<longrightarrow> (\<forall>s. \<not> fst ((\<lambda>s. checkConvergence eps False (computeApprox s)) s))"
    by simp
  from driver_loop_generic [of "factorizeNMFKLTempCont_loop maxSteps eps" maxSteps "\<lambda>s. checkConvergence eps False (computeApprox s)" fst factorizeNMFKLTempCont_body,
         OF eq pre body, of st observer] never
  show ?thesis by simp
qed

lemma factorizeNMFKLTempCont_run:
  "m_numSteps (fst (factorizeNMFKLTempCont maxSteps eps observer st)) \<le> maxSteps
   \<and> (eps \<le> 0 \<longrightarrow> m_numSteps (fst (factorizeNMFKLTempCont maxSteps eps observer st)) = maxSteps)
   \<and> m_notificationDelay (fst (factorizeNMFKLTempCont maxSteps eps observer st)) = m_notificationDelay st
   \<and> snd (factorizeNMFKLTempCont maxSteps eps observer st)
       = map_option (\<lambda>ob. ob @ notifications (m_notificationDelay st) maxSteps 0
                                 (m_numSteps (fst (factorizeNMFKLTempCont maxSteps eps observer st)))) observer"
  using factorizeNMFKLTempCont_loop_run [of "st\<lparr>m_numSteps := 0\<rparr>" maxSteps eps observer]
  by (simp add: factorizeNMFKLTempCont_def)

lemma normalizeMatrices_numSteps [simp]:
  "m_numSteps (normalizeMatrices st) = m_numSteps st"
  by (simp add: normalizeMatrices_def Let_def case_prod_unfold)

lemma decompose_finish:
  "(case Inr r of
      Inl e \<Rightarrow> (Some e, st0, observer0)
    | Inr (st, observer) \<Rightarrow>
        (let st = (if m_normalizeMatrices st then normalizeMatrices st else st);
             observer = (case observer of None \<Rightarrow> None | Some ob \<Rightarrow> Some (progressChanged 1 ob));
             st = (if m_oldApprox st \<noteq> None then st\<lparr>m_oldApprox := None\<rparr> else st)
         in (None, st, observer)))
   = (None,
      (let st = (if m_normalizeMatrices (fst r) then normalizeMatrices (fst r) else fst r)
       in if m_oldApprox st \<noteq> None then st\<lparr>m_oldApprox := None\<rparr> else st),
      map_option (\<lambda>ob. ob @ [1]) (snd r))"
  by (cases r, cases "snd r") (simp_all add: Let_def progressChanged_def)

lemma decompose_run:
  assumes "fst (decompose cf maxSteps eps observer st) = None"
  shows "m_numSteps (fst (snd (decompose cf maxSteps eps observer st))) \<le> maxSteps
       \<and> (eps \<le> 0 \<longrightarrow> m_numSteps (fst (snd (decompose cf maxSteps eps observer st))) = maxSteps)
       \<and> snd (snd (decompose cf maxSteps eps observer st))
           = map_option (\<lambda>ob. ob @ notifications (m_notificationDelay st) maxSteps 0
                  (m_numSteps (fst (snd (decompose cf maxSteps eps observer st)))) @ [1]) observer"
proof -
  have fin: "m_numSteps (fst r) \<le> maxSteps
       \<and> (eps \<le> 0 \<longrightarrow> m_numSteps (fst r) = maxSteps)
       \<and> m_notificationDelay (fst r) = m_notificationDelay st
       \<and> snd r = map_option (\<lambda>ob. ob @ notifications (m_notificationDelay st) maxSteps 0
                                 (m_numSteps (fst r))) observer
     \<Longrightarrow> decompose cf maxSteps eps observer st
          = (case Inr r of
               Inl e \<Rightarrow> (Some e, st, observer)
             | Inr (st, observer) \<Rightarrow>
                (let st = (if m_normalizeMatrices st then normalizeMatrices st else st);
                     observer = (case observer of None \<Rightarrow> None | Some ob \<Rightarrow> Some (progressChanged 1 ob));
                     st = (if m_oldApprox st \<noteq> None then st\<lparr>m_oldApprox := None\<rparr> else st)
                 in (None, st, observer)))
     \<Longrightarrow> ?thesis" for r
    unfolding decompose_finish
    by (simp add: Let_def option.map_comp comp_def)
  show ?thesis
  proof (cases cf)
    case EuclideanDistance
    show ?thesis
    proof (cases "m_t st = 1")
      case True
      show ?thesis
        by (rule fin [OF factorizeNMFED_run]) (use True in \<open>simp add: decompose_def EuclideanDistance\<close>)
    next
      case False
      show ?thesis
        by (rule fin [OF factorizeNMDED_run]) (use False in \<open>simp add: decompose_def EuclideanDistance\<close>)
    qed
  next
    case KLDivergence
    show ?thesis
      by (rule fin [OF factorizeNMDKL_run]) (simp add: decompose_def KLDivergence)
  next
    case EuclideanDistanceSparse
    with assms have "\<not> 1 < m_t st" by (auto simp: decompose_def)
    then show ?thesis
      by - (rule fin [OF factorizeNMFEDSparse_run], simp add: decompose_def EuclideanDistanceSparse)
  next
    case KLDivergenceSparse
    with assms have "\<not> 1 < m_t st" by (auto simp: decompose_def)
    then show ?thesis
      by - (rule fin [OF factorizeNMFKLSparse_run], simp add: decompose_def KLDivergenceSparse)
  next
    case EuclideanDistanceSparseNormalized
    with assms have "\<not> 1 < m_t st" by (auto simp: decompose_def)
    then show ?thesis
      by - (rule fin [OF factorizeNMFEDSparseNorm_run],
            simp add: decompose_def EuclideanDistanceSparseNormalized)
  next
    case KLDivergenceContinuous
    with assms have "\<not> 1 < m_t st" by (auto simp: decompose_def)
    then show ?thesis
      by - (rule fin [OF factorizeNMFKLTempCont_run], simp add: decompose_def KLDivergenceContinuous)
  next
    case (OtherCostFunction n)
    with assms show ?thesis by (simp add: decompose_def)
  qed
qed


lemma notifications_sorted:
  assumes "b \<le> m"
  shows "sorted (notifications d m a b)"
proof -
  have "sorted_wrt (\<lambda>x y. x < y) [Suc a..<Suc b]" by (rule sorted_wrt_upt)
  then have "sorted_wrt (\<lambda>x y. floatFraction x m \<le> floatFraction y m) [Suc a..<Suc b]"
  proof (rule sorted_wrt_mono_rel [rotated])
    fix x y assume "x \<in> set [Suc a..<Suc b]" "y \<in> set [Suc a..<Suc b]" "x < y"
    with assms show "floatFraction x m \<le> floatFraction y m"
      by (intro floatFraction_mono) simp_all
  qed
  then have "sorted_wrt (\<lambda>x y. floatFraction x m \<le> floatFraction y m)
               (filter (\<lambda>k. k mod d = 0) [Suc a..<Suc b])"
    by (rule sorted_wrt_filter)
  then show ?thesis
    by (simp only: notifications_def sorted_map)
qed

lemma notifications_le_1:
  assumes "b \<le> m" "x \<in> set (notifications d m a b)"
  shows "x \<le> 1"
proof -
  from assms(2) obtain k where k: "x = floatFraction k m" "Suc a \<le> k" "k \<le> b"
    by (auto simp: notifications_def)
  with assms(1) show ?thesis by (simp add: floatFraction_le_1)
qed

lemma count_list_distinct: "distinct xs \<Longrightarrow> count_list xs x = (if x \<in> set xs then 1 else 0)"
  by (induction xs) auto

lemma count_list_map_inj:
  "(\<And>x. x \<in> set xs \<Longrightarrow> (f x = y) = (x = x0)) \<Longrightarrow> count_list (map f xs) y = count_list xs x0"
  by (induction xs) auto

lemma notifications_last_step:
  assumes "0 < m" "m mod d = 0"
  shows "1 \<le> count_list (notifications d m 0 m) 1"
proof -
  have "floatFraction m m \<in> set (notifications d m 0 m)"
    using assms by (simp add: notifications_def)
  then have "1 \<in> set (notifications d m 0 m)"
    using assms(1) by (simp only: floatFraction_self)
  then have "count_list (notifications d m 0 m) 1 \<noteq> 0"
    by (simp only: count_list_0_iff not_not)
  then show ?thesis by simp
qed

lemma notifications_count_1:
  assumes "b \<le> m" "m \<le> 2 ^ 24"
  shows "count_list (notifications d m 0 b) 1 = (if 0 < m \<and> b = m \<and> m mod d = 0 then 1 else 0)"
proof (cases "m = 0")
  case True
  with assms show ?thesis by (simp add: notifications_def)
next
  case False
  have "count_list (notifications d m 0 b) 1
          = count_list (filter (\<lambda>k. k mod d = 0) [Suc 0..<Suc b]) m"
    unfolding notifications_def
  proof (rule count_list_map_inj)
    fix x assume "x \<in> set (filter (\<lambda>k. k mod d = 0) [Suc 0..<Suc b])"
    then have "x \<le> m" using assms(1) by auto
    with False assms(2) show "(floatFraction x m = 1) = (x = m)"
      by (intro floatFraction_eq_1_iff) simp_all
  qed
  also have "\<dots> = (if m \<in> set (filter (\<lambda>k. k mod d = 0) [Suc 0..<Suc b]) then 1 else 0)"
    by (rule count_list_distinct) simp
  also have "\<dots> = (if 0 < m \<and> b = m \<and> m mod d = 0 then 1 else 0)"
    using assms False by auto
  finally show ?thesis .
qed

lemma floatFraction_25_30: "floatFraction 25 30 = 13981013 / 16777216"
proof -
  have u: "ulp 24 (- 126) (5 / 6) = 2 powr of_int (- 24)"
    using ulp_eq [of "- 1" "5 / 6" "- 126" 24] by (simp add: powr_minus)
  have f: "\<lfloor>(83886080::real) / 6\<rfloor> = 13981013" by simp
  have "toFloat (5 / 6) = 13981013 / 16777216"
    by (simp add: toFloat_def roundToNearest_def u roundHalfEven_def Let_def powr_minus f)
  moreover have "toFloat (real 25) = real 25" "toFloat (real 30) = real 30"
    by (rule toFloat_nat_exact, simp)+
  ultimately show ?thesis
    by (simp add: floatFraction_def ieeeQuotient_def)
qed


lemma decompose_EuclideanDistance_returns [simp]:
  "fst (decompose EuclideanDistance maxSteps eps observer st) = None"
  by (simp add: decompose_def Let_def split: prod.splits)

text \<open>
  Claim C8, amended.  When \<open>decompose\<close> returns normally and the notification delay is
  positive, an observer that is not null has received, in this order: for every
  completed step count \<open>k\<close> from 1 to the final step count that is a multiple of the
  delay, the fraction \<^verbatim>\<open>(float)k / (float)maxSteps\<close>, and then the fraction 1.  A null
  observer stays null: no call is made.  The fractions are non-decreasing and the last
  one is 1.  The fraction 1 is passed at least once, and at least twice when the run
  completes all \<open>maxSteps\<close> steps and \<open>maxSteps\<close> is a positive multiple of the delay:
  for the last step and at completion.  For \<open>maxSteps\<close> up to \<open>2 ^ 24\<close> these are the
  only occurrences: the fraction 1 is passed twice in that case and once otherwise.
  Beyond \<open>2 ^ 24\<close> steps the fraction of an earlier step can be 1 too, as
  \<open>floatFraction_rounds_to_1\<close> shows for step \<open>2 ^ 24\<close> of \<open>2 ^ 24 + 1\<close>.
\<close>
theorem progress_notifications:
  assumes "fst (decompose cf maxSteps eps observer st) = None"
      and "0 < m_notificationDelay st"
  shows "snd (snd (decompose cf maxSteps eps observer st))
           = map_option (\<lambda>ob. ob @ notifications (m_notificationDelay st) maxSteps 0
                  (m_numSteps (fst (snd (decompose cf maxSteps eps observer st)))) @ [1]) observer
       \<and> (observer = None \<longrightarrow> snd (snd (decompose cf maxSteps eps observer st)) = None)
       \<and> sorted (notifications (m_notificationDelay st) maxSteps 0
                  (m_numSteps (fst (snd (decompose cf maxSteps eps observer st)))) @ [1])
       \<and> last (notifications (m_notificationDelay st) maxSteps 0
                  (m_numSteps (fst (snd (decompose cf maxSteps eps observer st)))) @ [1]) = 1
       \<and> 1 \<le> count_list (notifications (m_notificationDelay st) maxSteps 0
                  (m_numSteps (fst (snd (decompose cf maxSteps eps observer st)))) @ [1]) 1
       \<and> (0 < maxSteps \<and> m_numSteps (fst (snd (decompose cf maxSteps eps observer st))) = maxSteps
                 \<and> maxSteps mod m_notificationDelay st = 0 \<longrightarrow>
            2 \<le> count_list (notifications (m_notificationDelay st) maxSteps 0
                  (m_numSteps (fst (snd (decompose cf maxSteps eps observer st)))) @ [1]) 1)
       \<and> (maxSteps \<le> 2 ^ 24 \<longrightarrow>
            count_list (notifications (m_notificationDelay st) maxSteps 0
                  (m_numSteps (fst (snd (decompose cf maxSteps eps observer st)))) @ [1]) 1
              = (if 0 < maxSteps \<and> m_numSteps (fst (snd (decompose cf maxSteps eps observer st))) = maxSteps
                    \<and> maxSteps mod m_notificationDelay st = 0
                 then 2 else 1))"
proof -
  define n where "n = m_numSteps (fst (snd (decompose cf maxSteps eps observer st)))"
  define ns where "ns = notifications (m_notificationDelay st) maxSteps 0 n"
  note r = decompose_run [OF assms(1), folded n_def]
  then have n: "n \<le> maxSteps" by simp
  have e: "snd (snd (decompose cf maxSteps eps observer st)) = map_option (\<lambda>ob. ob @ ns @ [1]) observer"
    using r by (simp add: ns_def)
  have s: "sorted (ns @ [1])"
    using notifications_sorted [OF n] notifications_le_1 [OF n]
    by (simp add: sorted_append ns_def)
  have c1: "1 \<le> count_list (ns @ [1]) 1" by simp
  have c2: "0 < maxSteps \<and> n = maxSteps \<and> maxSteps mod m_notificationDelay st = 0 \<longrightarrow>
              2 \<le> count_list (ns @ [1]) 1"
    using notifications_last_step [of maxSteps "m_notificationDelay st"] by (auto simp: ns_def)
  have c3: "maxSteps \<le> 2 ^ 24 \<longrightarrow> count_list (ns @ [1]) 1
           = (if 0 < maxSteps \<and> n = maxSteps \<and> maxSteps mod m_notificationDelay st = 0
              then 2 else 1)"
    using notifications_count_1 [OF n, of "m_notificationDelay st"] by (simp add: ns_def)
  have o: "observer = None \<longrightarrow> snd (snd (decompose cf maxSteps eps observer st)) = None"
    using r by auto
  have l: "last (ns @ [1]) = 1" by simp
  show ?thesis
    unfolding n_def [symmetric] ns_def [symmetric] using e o s l c1 c2 c3 by (intro conjI)
qed

theorem progress_notifications_witness:
  "snd (snd (decompose EuclideanDistance 30 0 (Some []) (exampleEngine (mat [[1]]) [mat [[1]]] (mat [[1]])))) =
      Some [13981013 / 16777216, 1]"
proof -
  let ?st = "(exampleEngine (mat [[1]]) [mat [[1]]] (mat [[1]]))"
  have d: "0 < m_notificationDelay ?st" "m_notificationDelay ?st = 25"
    by (simp_all add: exampleEngine_def)
  have f: "fst (decompose EuclideanDistance 30 0 (Some []) ?st) = None" by simp
  have n: "m_numSteps (fst (snd (decompose EuclideanDistance 30 0 (Some []) ?st))) = 30"
    using decompose_run [OF f] by simp
  have "notifications 25 30 0 30 = [floatFraction 25 30]"
    by (simp add: notifications_def upt_rec [of _ "numeral _"] upt_rec [of _ "Suc _"])
       (simp add: eval_nat_numeral)
  then have "notifications 25 30 0 30 = [13981013 / 16777216]"
    by (simp only: floatFraction_25_30)
  with progress_notifications [OF f d(1)] n d(2) show ?thesis by simp
qed

text \<open>
  Claim C8 as stated has the fraction 1 passed exactly once.  With a notification delay
  of 1 and \<open>maxSteps = 1\<close>, a run without convergence test passes it for the first step
  and again at completion.
\<close>
theorem progress_final_value_twice:
  "fst (decompose EuclideanDistance 1 0 (Some []) ((exampleEngine (mat [[1]]) [mat [[1]]] (mat [[1]]))\<lparr>m_notificationDelay := 1\<rparr>)) = None
   \<and> snd (snd (decompose EuclideanDistance 1 0 (Some []) ((exampleEngine (mat [[1]]) [mat [[1]]] (mat [[1]]))\<lparr>m_notificationDelay := 1\<rparr>)))
       = Some [1, 1]"
proof -
  let ?st = "(exampleEngine (mat [[1]]) [mat [[1]]] (mat [[1]]))\<lparr>m_notificationDelay := 1\<rparr>"
  have f: "fst (decompose EuclideanDistance 1 0 (Some []) ?st) = None" by simp
  have n: "m_numSteps (fst (snd (decompose EuclideanDistance 1 0 (Some []) ?st))) = 1"
    using decompose_run [OF f] by simp
  have "notifications 1 1 0 1 = [1]"
    by (simp add: notifications_def floatFraction_self)
  with decompose_run [OF f] n f show ?thesis by simp
qed


text \<open>
  Claim C9, amended.  \<open>nextItStep\<close> increments the step counter by one; the loop of every
  driver never decreases it; and whenever \<open>decompose\<close> returns normally the step counter
  is at most \<open>maxSteps\<close>.  Every driver restarts the counter at 0: without convergence
  test (\<open>eps \<le> 0\<close>) the final count is \<open>maxSteps\<close>, whatever the count was before the
  call.
\<close>
theorem step_counter_within_call:
  "m_numSteps (fst (nextItStep observer maxSteps s)) = m_numSteps s + 1
   \<and> m_numSteps s \<le> m_numSteps (fst (factorizeNMFED_loop maxSteps eps observer s))
   \<and> m_numSteps s \<le> m_numSteps (fst (factorizeNMDED_loop maxSteps eps observer s))
   \<and> m_numSteps s \<le> m_numSteps (fst (factorizeNMDKL_loop maxSteps eps observer s))
   \<and> m_numSteps s \<le> m_numSteps (fst (factorizeNMFEDSparse_loop maxSteps eps observer s))
   \<and> m_numSteps s \<le> m_numSteps (fst (factorizeNMFKLSparse_loop maxSteps eps observer s))
   \<and> m_numSteps s \<le> m_numSteps (fst (factorizeNMFKLTempCont_loop maxSteps eps observer s))
   \<and> m_numSteps s \<le> m_numSteps (fst (factorizeNMFEDSparseNorm_loop maxSteps eps observer s))
   \<and> (fst (decompose cf maxSteps eps observer st) = None \<longrightarrow>
         m_numSteps (fst (snd (decompose cf maxSteps eps observer st))) \<le> maxSteps
         \<and> (eps \<le> 0 \<longrightarrow> m_numSteps (fst (snd (decompose cf maxSteps eps observer st))) = maxSteps))"
  using factorizeNMFED_loop_run [of s maxSteps eps observer]
        factorizeNMDED_loop_run [of s maxSteps eps observer]
        factorizeNMDKL_loop_run [of s maxSteps eps observer]
        factorizeNMFEDSparse_loop_run [of s maxSteps eps observer]
        factorizeNMFKLSparse_loop_run [of s maxSteps eps observer]
        factorizeNMFKLTempCont_loop_run [of s maxSteps eps observer]
        factorizeNMFEDSparseNorm_loop_run [of s maxSteps eps observer]
        decompose_run [of cf maxSteps eps observer st]
  by simp

theorem step_counter_within_call_witness:
  "fst (decompose EuclideanDistance 3 0 None ((exampleEngine (mat [[1]]) [mat [[1]]] (mat [[1]]))\<lparr>m_numSteps := 7\<rparr>)) = None
   \<and> m_numSteps (fst (snd (decompose EuclideanDistance 3 0 None ((exampleEngine (mat [[1]]) [mat [[1]]] (mat [[1]]))\<lparr>m_numSteps := 7\<rparr>)))) = 3"
  using step_counter_within_call [of None 3 "(exampleEngine (mat [[1]]) [mat [[1]]] (mat [[1]]))" 0 EuclideanDistance "(exampleEngine (mat [[1]]) [mat [[1]]] (mat [[1]]))\<lparr>m_numSteps := 7\<rparr>"]
  by simp

text \<open>
  Claim C9 as stated has the step counter advance monotonically across successive calls
  of \<open>decompose\<close> on one engine.  A call with \<open>maxSteps = 2\<close> leaves it at 2, and a
  following call with \<open>maxSteps = 1\<close> leaves it at 1.
\<close>
theorem step_counter_restarts:
  "m_numSteps (fst (snd (decompose EuclideanDistance 2 0 None (exampleEngine (mat [[1]]) [mat [[1]]] (mat [[1]]))))) = 2
   \<and> m_numSteps (fst (snd (decompose EuclideanDistance 1 0 None
                      (fst (snd (decompose EuclideanDistance 2 0 None (exampleEngine (mat [[1]]) [mat [[1]]] (mat [[1]])))))))) = 1"
proof -
  have a: "m_numSteps (fst (snd (decompose EuclideanDistance 2 0 None (exampleEngine (mat [[1]]) [mat [[1]]] (mat [[1]]))))) = 2"
    using decompose_run [of EuclideanDistance 2 0 None "(exampleEngine (mat [[1]]) [mat [[1]]] (mat [[1]]))"] by simp
  have b: "m_numSteps (fst (snd (decompose EuclideanDistance 1 0 None
                      (fst (snd (decompose EuclideanDistance 2 0 None (exampleEngine (mat [[1]]) [mat [[1]]] (mat [[1]])))))))) = 1"
    using decompose_run [of EuclideanDistance 1 0 None
                           "fst (snd (decompose EuclideanDistance 2 0 None (exampleEngine (mat [[1]]) [mat [[1]]] (mat [[1]]))))"] by simp
  from a b show ?thesis by simp
qed


end
